theory Spec2Isabelle
  imports Complex_Main "HOL-Library.Sublist" "HOL-Library.Char_ord" "HOL-Library.List_Lexorder"
    "HOL-Library.AList"
begin

section \<open>Strings and numbers of the host language\<close>

text \<open>
  A JavaScript string is represented by its UTF-8 encoding, a \<^typ>\<open>string\<close> of bytes. This is
  the form in which \<^verbatim>\<open>createHmac(...).update(message)\<close> and \<^verbatim>\<open>Buffer.from(s)\<close> consume a
  string; the empty string is the empty list and template concatenation is \<open>@\<close>. (A string
  with an unpaired surrogate has no UTF-8 encoding and is outside the model.)

  The timestamps and clock readings of \<^verbatim>\<open>verifyWebhook\<close> and the expiry of \<^verbatim>\<open>generateUrl\<close> are
  Numbers that hold integers, and are represented by an \<^typ>\<open>int\<close>. The arithmetic of
  \<^verbatim>\<open>verifyWebhook\<close> (one subtraction, \<^verbatim>\<open>Math.abs\<close>, one comparison with 300) is exact on
  doubles whenever the clock reading is a time value (see \<open>time_value\<close> below), so it is
  written on integers. A Number in general (an option of \<^verbatim>\<open>generateUrl\<close>, a number of a JSON
  document) is a value of the type \<open>number\<close> defined below.
\<close>

datatype js_error = TypeError | RangeError | SyntaxError

definition is_digit :: "char \<Rightarrow> bool" where
  "is_digit c \<longleftrightarrow> 48 \<le> (of_char c :: nat) \<and> (of_char c :: nat) \<le> 57"

definition digit_val :: "char \<Rightarrow> nat" where
  "digit_val c = of_char c - 48"

definition digit_char :: "nat \<Rightarrow> char" where
  "digit_char d = char_of (48 + d)"

text \<open>The decimal numeral of a natural number, most significant digit first.\<close>

fun decimal :: "nat \<Rightarrow> string" where
  "decimal n = (if n < 10 then [digit_char n] else decimal (n div 10) @ [digit_char (n mod 10)])"

declare decimal.simps [simp del]

text \<open>The value of a string of decimal digits (the \<open>mathInt\<close> of \<^verbatim>\<open>parseInt\<close>).\<close>

definition digits_value :: "string \<Rightarrow> nat" where
  "digits_value Z = foldl (\<lambda>a c. 10 * a + digit_val c) 0 Z"

text \<open>
  The code points that \<^verbatim>\<open>parseInt\<close> skips at the start of its input (ECMAScript
  \<open>WhiteSpace\<close> and \<open>LineTerminator\<close>), each as its UTF-8 byte sequence: TAB, LF, VT, FF, CR,
  SP, U+00A0, U+1680, U+2000 to U+200A, U+2028, U+2029, U+202F, U+205F, U+3000, U+FEFF.
\<close>

definition WhiteSpace :: "string list" where
  "WhiteSpace =
    [[CHR 0x09], [CHR 0x0A], [CHR 0x0B], [CHR 0x0C], [CHR 0x0D], [CHR 0x20],
     [CHR 0xC2, CHR 0xA0],
     [CHR 0xE1, CHR 0x9A, CHR 0x80],
     [CHR 0xE2, CHR 0x80, CHR 0x80], [CHR 0xE2, CHR 0x80, CHR 0x81],
     [CHR 0xE2, CHR 0x80, CHR 0x82], [CHR 0xE2, CHR 0x80, CHR 0x83],
     [CHR 0xE2, CHR 0x80, CHR 0x84], [CHR 0xE2, CHR 0x80, CHR 0x85],
     [CHR 0xE2, CHR 0x80, CHR 0x86], [CHR 0xE2, CHR 0x80, CHR 0x87],
     [CHR 0xE2, CHR 0x80, CHR 0x88], [CHR 0xE2, CHR 0x80, CHR 0x89],
     [CHR 0xE2, CHR 0x80, CHR 0x8A],
     [CHR 0xE2, CHR 0x80, CHR 0xA8], [CHR 0xE2, CHR 0x80, CHR 0xA9],
     [CHR 0xE2, CHR 0x80, CHR 0xAF],
     [CHR 0xE2, CHR 0x81, CHR 0x9F],
     [CHR 0xE3, CHR 0x80, CHR 0x80],
     [CHR 0xEF, CHR 0xBB, CHR 0xBF]]"

text \<open>\<^verbatim>\<open>TrimString(s, start)\<close>: drop leading white space, one code point at a time.\<close>

function trim_start :: "string \<Rightarrow> string" where
  "trim_start s =
     (case find (\<lambda>w. prefix w s) WhiteSpace of
        None \<Rightarrow> s
      | Some w \<Rightarrow> trim_start (drop (length w) s))"
  by pat_completeness auto
termination
proof (relation "measure length")
  show "wf (measure length)" by simp
next
  fix s w
  assume "find (\<lambda>w. prefix w s) WhiteSpace = Some w"
  then have "w \<in> set WhiteSpace" and "prefix w s"
    by (auto simp: find_Some_iff)
  then have "w \<noteq> []" and "length w \<le> length s"
    by (auto simp: WhiteSpace_def prefix_length_le)
  then show "(drop (length w) s, s) \<in> measure length"
    by (cases w) auto
qed

declare trim_start.simps [simp del]

text \<open>
  \<^verbatim>\<open>parseInt(inputString, 10)\<close>, the only radix the program passes. \<open>None\<close> is \<^verbatim>\<open>NaN\<close>.
  The steps are those of ECMAScript: trim leading white space, read one optional sign,
  take the longest prefix of decimal digits, fail if it is empty. (With radix 10 no
  \<^verbatim>\<open>0x\<close> prefix is stripped; \<^verbatim>\<open>-0\<close> is the integer 0.)
\<close>

definition parseInt :: "string \<Rightarrow> int option" where
  "parseInt inputString =
     (let S = trim_start inputString;
          sign = (if S \<noteq> [] \<and> hd S = CHR ''-'' then - 1 else 1 :: int);
          S' = (if S \<noteq> [] \<and> (hd S = CHR ''+'' \<or> hd S = CHR ''-'') then tl S else S);
          Z = takeWhile is_digit S'
      in if Z = [] then None else Some (sign * int (digits_value Z)))"

text \<open>
  \<^verbatim>\<open>Date.now()\<close> returns a time value: an integral number of milliseconds of magnitude at
  most 8.64e15.
\<close>

definition time_value :: "int \<Rightarrow> bool" where
  "time_value ms \<longleftrightarrow> \<bar>ms\<bar> \<le> 8640000000000000"

subsection \<open>Numbers\<close>

text \<open>
  A Number is an IEEE 754 double: a finite value, which is a rational number, or \<^verbatim>\<open>NaN\<close>, or
  one of the two infinities. The two zeros are one value here: \<^verbatim>\<open>===\<close> does not tell them
  apart and \<^verbatim>\<open>String\<close> writes both as \<^verbatim>\<open>0\<close>.
\<close>

datatype number = Finite rat | NaN | PosInfinity | NegInfinity

fun bit_length :: "nat \<Rightarrow> nat" where
  "bit_length n = (if n = 0 then 0 else Suc (bit_length (n div 2)))"

declare bit_length.simps [simp del]

text \<open>The exponent \<open>e\<close> with \<open>2^e \<le> q < 2^(e + 1)\<close> of a positive rational.\<close>

definition binary_exponent :: "rat \<Rightarrow> int" where
  "binary_exponent q =
     (if 1 \<le> q then int (bit_length (nat \<lfloor>q\<rfloor>)) - 1
      else let b = int (bit_length (nat \<lfloor>1 / q\<rfloor>))
           in if q = 2 powi (1 - b) then 1 - b else - b)"

definition round_half_even :: "rat \<Rightarrow> int" where
  "round_half_even y =
     (let f = \<lfloor>y\<rfloor>; d = y - of_int f
      in if d < 1 / 2 then f else if 1 / 2 < d then f + 1 else if even f then f else f + 1)"

text \<open>
  The double nearest to a non-negative rational, ties to even: 53 significant bits, the
  exponent not below that of the subnormal numbers; \<open>None\<close> is the overflow to infinity.
\<close>

definition to_double :: "rat \<Rightarrow> rat option" where
  "to_double q =
     (let E = max (binary_exponent q) (- 1022);
          u = 2 powi (E - 52);
          r = of_int (round_half_even (q / u)) * u
      in if 2 ^ 1024 \<le> r then None else Some r)"

text \<open>The values of the type that are Numbers: a finite one has to be a double.\<close>

fun is_Number :: "number \<Rightarrow> bool" where
  "is_Number (Finite q) = (q = 0 \<or> to_double \<bar>q\<bar> = Some \<bar>q\<bar>)"
| "is_Number _ = True"

subsection \<open>Number to string\<close>

text \<open>The exponent \<open>n\<close> with \<open>10^(n - 1) \<le> q < 10^n\<close> of a positive rational.\<close>

definition decimal_exponent :: "rat \<Rightarrow> int" where
  "decimal_exponent q =
     (if 1 \<le> q then int (length (decimal (nat \<lfloor>q\<rfloor>)))
      else let d = int (length (decimal (nat \<lfloor>1 / q\<rfloor>)))
           in if q = 10 powi (1 - d) then 2 - d else 1 - d)"

text \<open>
  \<^verbatim>\<open>Number::toString\<close> asks for integers \<open>n\<close>, \<open>k\<close>, \<open>s\<close> with \<open>s\<close> of \<open>k\<close> digits, \<open>s * 10^(n-k)\<close>
  rounding to the Number \<open>x\<close>, and \<open>k\<close> as small as possible; among several \<open>s\<close> the one
  nearest to \<open>x\<close>, and the even one of two equally near. A pair \<open>(s, z)\<close> stands for
  \<open>s * 10^z\<close>. With \<open>k\<close> digits the candidates are the two multiples of \<open>10^z\<close> around \<open>x\<close>;
  the search ends at the latest when \<open>x\<close> itself is a multiple of \<open>10^z\<close>.
\<close>

definition decimal_value :: "nat \<times> int \<Rightarrow> rat" where
  "decimal_value c = of_nat (fst c) * 10 powi (snd c)"

definition digit_candidates :: "rat \<Rightarrow> nat \<Rightarrow> (nat \<times> int) list" where
  "digit_candidates x k =
     (let z = decimal_exponent x - int k; lo = nat \<lfloor>x / 10 powi z\<rfloor>
      in [(lo, z), (lo + 1, z)])"

definition rounds_to :: "rat \<Rightarrow> nat \<times> int \<Rightarrow> bool" where
  "rounds_to x c \<longleftrightarrow> to_double (decimal_value c) = Some x"

definition closer :: "rat \<Rightarrow> nat \<times> int \<Rightarrow> nat \<times> int \<Rightarrow> nat \<times> int" where
  "closer x a b =
     (let da = \<bar>decimal_value a - x\<bar>; db = \<bar>decimal_value b - x\<bar>
      in if da < db \<or> (da = db \<and> even (fst a)) then a else b)"

definition digits_bound :: "rat \<Rightarrow> nat" where
  "digits_bound x =
     nat (max 1 (decimal_exponent x + max 0 (52 - max (binary_exponent x) (- 1022))))"

definition shortest_digits :: "rat \<Rightarrow> nat \<times> int" where
  "shortest_digits x =
     (case find (\<lambda>k. list_ex (rounds_to x) (digit_candidates x k)) [1 ..< Suc (digits_bound x)] of
        None \<Rightarrow> (0, 0)
      | Some k \<Rightarrow>
          (case filter (rounds_to x) (digit_candidates x k) of
             [a, b] \<Rightarrow> closer x a b
           | a # _ \<Rightarrow> a
           | [] \<Rightarrow> (0, 0)))"

text \<open>The digits without their trailing zeros.\<close>

fun strip_zeros :: "nat \<times> int \<Rightarrow> nat \<times> int" where
  "strip_zeros (s, z) = (if 0 < s \<and> s mod 10 = 0 then strip_zeros (s div 10, z + 1) else (s, z))"

declare strip_zeros.simps [simp del]

text \<open>
  The four forms of \<^verbatim>\<open>Number::toString\<close>, with \<open>k\<close> the number of digits and \<open>n\<close> the position
  of the decimal point: the digits and \<open>n - k\<close> zeros; the digits with a point after the
  first \<open>n\<close>; \<^verbatim>\<open>0.\<close>, \<open>-n\<close> zeros and the digits; and, for \<open>n\<close> above 21 or below -5, the
  exponent form.
\<close>

definition format_digits :: "nat \<times> int \<Rightarrow> string" where
  "format_digits c =
     (let ds = decimal (fst (strip_zeros c));
          k = int (length ds);
          n = snd (strip_zeros c) + k
      in if k \<le> n \<and> n \<le> 21 then ds @ replicate (nat (n - k)) (CHR ''0'')
         else if 0 < n \<and> n \<le> 21 then take (nat n) ds @ ''.'' @ drop (nat n) ds
         else if - 6 < n \<and> n \<le> 0 then ''0.'' @ replicate (nat (- n)) (CHR ''0'') @ ds
         else let e = n - 1;
                  sign = (if e < 0 then ''-'' else ''+'');
                  digits = decimal (nat \<bar>e\<bar>)
              in if k = 1 then ds @ ''e'' @ sign @ digits
                 else hd ds # ''.'' @ tl ds @ ''e'' @ sign @ digits)"

text \<open>
  The string of a Number that is not negative. An integer below 2^53 is the value of its
  own decimal numeral, which has at most 16 digits: the shortest digits are the numeral
  without its trailing zeros, and the first form writes them back.
\<close>

definition positive_toString :: "rat \<Rightarrow> string" where
  "positive_toString x =
     (if of_int \<lfloor>x\<rfloor> = x \<and> x < 2 ^ 53 then decimal (nat \<lfloor>x\<rfloor>)
      else format_digits (shortest_digits x))"

text \<open>\<^verbatim>\<open>String(x)\<close> for a Number \<open>x\<close>, which is \<^verbatim>\<open>Number::toString(x, 10)\<close>.\<close>

fun String_of_Number :: "number \<Rightarrow> string" where
  "String_of_Number NaN = ''NaN''"
| "String_of_Number PosInfinity = ''Infinity''"
| "String_of_Number NegInfinity = ''-Infinity''"
| "String_of_Number (Finite q) =
     (if q < 0 then ''-'' @ positive_toString (- q) else positive_toString q)"

text \<open>The same for a Number that holds an integer, as in \<^verbatim>\<open>`${expires}`\<close>.\<close>

definition Number_toString :: "int \<Rightarrow> string" where
  "Number_toString x = String_of_Number (Finite (of_int x))"

definition Boolean_toString :: "bool \<Rightarrow> string" where
  "Boolean_toString b = (if b then ''true'' else ''false'')"

subsection \<open>Decimal strings\<close>

text \<open>
  The position \<open>n\<close> of the decimal point that \<open>format_digits\<close> computes, and the Number
  \<^verbatim>\<open>0.000001\<close>, which is the double nearest to \<open>10^-6\<close> and lies just below it.
\<close>

definition point_position :: "nat \<times> int \<Rightarrow> int" where
  "point_position c = snd (strip_zeros c) + int (length (decimal (fst (strip_zeros c))))"

definition one_millionth :: rat where
  "one_millionth = 4722366482869645 / 2 ^ 72"

text \<open>
  The value of an unsigned decimal literal: digits, an optional fraction after a point,
  an optional exponent after \<^verbatim>\<open>e\<close>.
\<close>

definition split_at :: "char \<Rightarrow> string \<Rightarrow> string \<times> string" where
  "split_at c s = (takeWhile (\<lambda>d. d \<noteq> c) s, drop 1 (dropWhile (\<lambda>d. d \<noteq> c) s))"

definition exponent_value :: "string \<Rightarrow> int" where
  "exponent_value e =
     (case e of
        [] \<Rightarrow> 0
      | c # ds \<Rightarrow>
          if c = CHR ''-'' then - int (digits_value ds)
          else if c = CHR ''+'' then int (digits_value ds)
          else int (digits_value e))"

definition literal_value :: "string \<Rightarrow> rat" where
  "literal_value s =
     (let m = fst (split_at (CHR ''e'') s);
          e = snd (split_at (CHR ''e'') s);
          i = fst (split_at (CHR ''.'') m);
          f = snd (split_at (CHR ''.'') m)
      in of_nat (digits_value (i @ f)) * 10 powi (exponent_value e - int (length f)))"

text \<open>
  The Number that a string written by \<^verbatim>\<open>String\<close> denotes when it is read as a numeric
  literal (what \<^verbatim>\<open>Number(s)\<close> returns for it).
\<close>

definition to_Number :: "rat \<Rightarrow> number" where
  "to_Number q = (case to_double q of None \<Rightarrow> PosInfinity | Some r \<Rightarrow> Finite r)"

fun negate :: "number \<Rightarrow> number" where
  "negate (Finite q) = Finite (- q)"
| "negate NaN = NaN"
| "negate PosInfinity = NegInfinity"
| "negate NegInfinity = PosInfinity"

definition read_back :: "string \<Rightarrow> number" where
  "read_back s =
     (if s = ''NaN'' then NaN
      else if s = ''Infinity'' then PosInfinity
      else if s = ''-Infinity'' then NegInfinity
      else if s \<noteq> [] \<and> hd s = CHR ''-'' then negate (to_Number (literal_value (tl s)))
      else to_Number (literal_value s))"

text \<open>
  A decimal string with no scientific notation: an optional minus sign, one or more
  digits, and optionally a point followed by one or more digits.
\<close>

definition plain_decimal :: "string \<Rightarrow> bool" where
  "plain_decimal s =
     (let t = (if s \<noteq> [] \<and> hd s = CHR ''-'' then tl s else s);
          i = takeWhile is_digit t;
          r = dropWhile is_digit t
      in i \<noteq> [] \<and> (r = [] \<or> (hd r = CHR ''.'' \<and> tl r \<noteq> [] \<and> list_all is_digit (tl r))))"

text \<open>The Numbers that \<^verbatim>\<open>String\<close> writes as such a string.\<close>

fun plain_range :: "number \<Rightarrow> bool" where
  "plain_range (Finite q) = (q = 0 \<or> (one_millionth \<le> \<bar>q\<bar> \<and> \<bar>q\<bar> < 10 ^ 21))"
| "plain_range _ = False"

section \<open>Webhook verifier\<close>

text \<open>
  \<^verbatim>\<open>timingSafeEqual(a, b)\<close> of \<^verbatim>\<open>node:crypto\<close> throws a \<^verbatim>\<open>RangeError\<close> when the two buffers differ
  in byte length and compares their contents otherwise. \<^verbatim>\<open>Buffer.from(s)\<close> is the UTF-8
  encoding of \<open>s\<close>, which is the representation of \<open>s\<close> itself.
\<close>

definition Buffer_from :: "string \<Rightarrow> string" where
  "Buffer_from s = s"

definition timingSafeEqual :: "string \<Rightarrow> string \<Rightarrow> js_error + bool" where
  "timingSafeEqual a b = (if length a \<noteq> length b then Inl RangeError else Inr (a = b))"

text \<open>
  \<^verbatim>\<open>verifyWebhook(payload, signature, timestamp, secret)\<close>. Its two inputs from the
  environment are explicit arguments: \<open>hmac\<close> is
  \<^verbatim>\<open>(key, message) => createHmac('sha256', key).update(message).digest('hex')\<close> and \<open>Date_now\<close>
  is the value of \<^verbatim>\<open>Date.now()\<close> in milliseconds. The \<^verbatim>\<open>try\<close>/\<^verbatim>\<open>catch\<close> around the comparison
  is the \<open>case\<close> on its result.
\<close>

definition verifyWebhook ::
    "(string \<Rightarrow> string \<Rightarrow> string) \<Rightarrow> int \<Rightarrow> string \<Rightarrow> string \<Rightarrow> string \<Rightarrow> string \<Rightarrow> bool" where
  "verifyWebhook hmac Date_now payload signature timestamp secret =
     (if payload = [] \<or> signature = [] \<or> timestamp = [] \<or> secret = [] then False
      else case parseInt timestamp of
        None \<Rightarrow> False
      | Some timestampNum \<Rightarrow>
          let now = Date_now div 1000;
              tolerance = 5 * 60
          in if \<bar>now - timestampNum\<bar> > tolerance then False
             else let message = timestamp @ ''.'' @ payload;
                      expected = ''sha256='' @ hmac secret message
                  in (case timingSafeEqual (Buffer_from expected) (Buffer_from signature) of
                        Inr equal \<Rightarrow> equal
                      | Inl _ \<Rightarrow> False))"

text \<open>
  The sender's side, as the tests' \<^verbatim>\<open>createValidSignature\<close> writes it: the signature header
  for a payload and a timestamp string.
\<close>

definition createValidSignature :: "(string \<Rightarrow> string \<Rightarrow> string) \<Rightarrow> string \<Rightarrow> string \<Rightarrow> string \<Rightarrow> string" where
  "createValidSignature hmac secret payload timestamp =
     ''sha256='' @ hmac secret (timestamp @ ''.'' @ payload)"

text \<open>
  The strings that \<^verbatim>\<open>parseInt\<close> reads a number from, said without the parse: after the
  leading white space and one optional sign, the next character is a decimal digit.
\<close>

definition starts_with_integer :: "string \<Rightarrow> bool" where
  "starts_with_integer s =
     (case trim_start s of
        [] \<Rightarrow> False
      | c # cs \<Rightarrow>
          if c = CHR ''+'' \<or> c = CHR ''-'' then (case cs of [] \<Rightarrow> False | d # _ \<Rightarrow> is_digit d)
          else is_digit c)"

text \<open>A decimal integer numeral: an optional minus sign and one or more decimal digits.\<close>

definition integer_numeral :: "string \<Rightarrow> bool" where
  "integer_numeral s =
     (case s of
        [] \<Rightarrow> False
      | c # cs \<Rightarrow> if c = CHR ''-'' then cs \<noteq> [] \<and> list_all is_digit cs else list_all is_digit (c # cs))"

text \<open>
  A stand-in keyed digest for closed examples, where the theorems need some function in
  the place of HMAC-SHA256: no theorem depends on which function it is.
\<close>

definition example_hmac :: "string \<Rightarrow> string \<Rightarrow> string" where
  "example_hmac key message = concat (map (\<lambda>c. decimal (of_char c)) (key @ message))"

section \<open>URL signer\<close>

text \<open>
  \<^verbatim>\<open>TakeOptionsConfig\<close>: every field is optional, \<open>None\<close> is \<^verbatim>\<open>undefined\<close>. The string-literal
  union types (\<^verbatim>\<open>ImageFormat\<close>, \<^verbatim>\<open>WaitCondition\<close>, \<^verbatim>\<open>Preset\<close>, \<^verbatim>\<open>Device\<close>, ...) are strings at run
  time and are strings here. A \<^verbatim>\<open>number\<close> field holds a \<open>number\<close>: TypeScript admits every
  Number there, fractions, \<^verbatim>\<open>NaN\<close> and the infinities included.
\<close>

record Geolocation =
  latitude :: number
  longitude :: number
  accuracy :: "number option"

record Cookie =
  cookie_name :: string
  cookie_value :: string
  cookie_domain :: "string option"
  cookie_path :: "string option"
  cookie_expires :: "number option"
  cookie_httpOnly :: "bool option"
  cookie_secure :: "bool option"
  cookie_sameSite :: "string option"

record TakeOptionsConfig =
  url :: "string option"
  html :: "string option"
  width :: "number option"
  height :: "number option"
  scale :: "number option"
  mobile :: "bool option"
  fullPage :: "bool option"
  element :: "string option"
  format :: "string option"
  quality :: "number option"
  waitFor :: "string option"
  delay :: "number option"
  waitForSelector :: "string option"
  waitForTimeout :: "number option"
  preset :: "string option"
  device :: "string option"
  blockAds :: "bool option"
  blockTrackers :: "bool option"
  blockCookieBanners :: "bool option"
  blockChatWidgets :: "bool option"
  blockUrls :: "string list option"
  blockResources :: "string list option"
  injectScript :: "string option"
  injectStyle :: "string option"
  click :: "string option"
  hide :: "string list option"
  remove :: "string list option"
  darkMode :: "bool option"
  reducedMotion :: "bool option"
  mediaType :: "string option"
  userAgent :: "string option"
  timezone :: "string option"
  locale' :: "string option"
  geolocation :: "Geolocation option"
  headers :: "(string \<times> string) list option"
  cookies :: "Cookie list option"
  authBasic :: "(string \<times> string) option"
  authBearer :: "string option"
  bypassCsp :: "bool option"
  cacheTtl :: "number option"
  cacheRefresh :: "bool option"
  pdfPaperSize :: "string option"
  pdfWidth :: "string option"
  pdfHeight :: "string option"
  pdfLandscape :: "bool option"
  pdfMargin :: "string option"
  pdfMarginTop :: "string option"
  pdfMarginRight :: "string option"
  pdfMarginBottom :: "string option"
  pdfMarginLeft :: "string option"
  pdfScale :: "number option"
  pdfPrintBackground :: "bool option"
  pdfPageRanges :: "string option"
  pdfHeader :: "string option"
  pdfFooter :: "string option"
  pdfFitOnePage :: "bool option"
  pdfPreferCssPageSize :: "bool option"
  storageEnabled :: "bool option"
  storagePath :: "string option"
  storageAcl :: "string option"

text \<open>The configuration \<^verbatim>\<open>{}\<close>, with no option set.\<close>

definition no_options :: TakeOptionsConfig where
  "no_options =
     \<lparr>url = None, html = None, width = None, height = None, scale = None, mobile = None,
      fullPage = None, element = None, format = None, quality = None, waitFor = None,
      delay = None, waitForSelector = None, waitForTimeout = None, preset = None,
      device = None, blockAds = None, blockTrackers = None, blockCookieBanners = None,
      blockChatWidgets = None, blockUrls = None, blockResources = None, injectScript = None,
      injectStyle = None, click = None, hide = None, remove = None, darkMode = None,
      reducedMotion = None, mediaType = None, userAgent = None, timezone = None,
      locale' = None, geolocation = None, headers = None, cookies = None, authBasic = None,
      authBearer = None, bypassCsp = None, cacheTtl = None, cacheRefresh = None,
      pdfPaperSize = None, pdfWidth = None, pdfHeight = None, pdfLandscape = None,
      pdfMargin = None, pdfMarginTop = None, pdfMarginRight = None, pdfMarginBottom = None,
      pdfMarginLeft = None, pdfScale = None, pdfPrintBackground = None, pdfPageRanges = None,
      pdfHeader = None, pdfFooter = None, pdfFitOnePage = None, pdfPreferCssPageSize = None,
      storageEnabled = None, storagePath = None, storageAcl = None\<rparr>"



text \<open>
  \<^verbatim>\<open>params\<close>, a \<^verbatim>\<open>Record<string, string>\<close>, is the list of its properties in insertion order.
  The nineteen statements \<^verbatim>\<open>if (config.f !== undefined) params[key] = value\<close> are listed in
  the order of the source, each with its key and the value it would assign.
\<close>

type_synonym params = "(string \<times> string) list"

definition param_assignments :: "TakeOptionsConfig \<Rightarrow> (string \<times> string option) list" where
  "param_assignments config =
     [(''url'', url config),
      (''width'', map_option String_of_Number (width config)),
      (''height'', map_option String_of_Number (height config)),
      (''scale'', map_option String_of_Number (scale config)),
      (''mobile'', map_option Boolean_toString (mobile config)),
      (''full_page'', map_option Boolean_toString (fullPage config)),
      (''element'', element config),
      (''format'', format config),
      (''quality'', map_option String_of_Number (quality config)),
      (''preset'', preset config),
      (''device'', device config),
      (''wait_for'', waitFor config),
      (''delay'', map_option String_of_Number (delay config)),
      (''block_ads'', map_option Boolean_toString (blockAds config)),
      (''block_trackers'', map_option Boolean_toString (blockTrackers config)),
      (''block_cookie_banners'', map_option Boolean_toString (blockCookieBanners config)),
      (''block_chat_widgets'', map_option Boolean_toString (blockChatWidgets config)),
      (''dark_mode'', map_option Boolean_toString (darkMode config)),
      (''cache_ttl'', map_option String_of_Number (cacheTtl config))]"

definition assign :: "string \<times> string option \<Rightarrow> params \<Rightarrow> params" where
  "assign kv params =
     (case snd kv of None \<Rightarrow> params | Some v \<Rightarrow> AList.update (fst kv) v params)"

definition build_params :: "TakeOptionsConfig \<Rightarrow> params" where
  "build_params config = fold assign (param_assignments config) []"

text \<open>\<^verbatim>\<open>Array.prototype.join\<close> on strings.\<close>

fun join :: "string \<Rightarrow> string list \<Rightarrow> string" where
  "join sep [] = []"
| "join sep [x] = x"
| "join sep (x # y # ys) = x @ sep @ join sep (y # ys)"

text \<open>
  \<^verbatim>\<open>params[k]\<close> inside a template string; a missing property would print as
  \<^verbatim>\<open>undefined\<close>.
\<close>

definition param_text :: "params \<Rightarrow> string \<Rightarrow> string" where
  "param_text params k = (case map_of params k of Some v \<Rightarrow> v | None \<Rightarrow> ''undefined'')"

text \<open>
  \<^verbatim>\<open>Object.keys(params).sort()\<close> orders strings by code units; the keys are ASCII, where
  this is the byte-wise lexicographic order of \<^typ>\<open>string\<close>.
\<close>

definition canonical :: "params \<Rightarrow> string" where
  "canonical params =
     (let sortedKeys = sort (map fst params)
      in join ''&'' (map (\<lambda>k. k @ ''='' @ param_text params k) sortedKeys))"

text \<open>
  The \<^verbatim>\<open>message\<close> of \<^verbatim>\<open>generateUrl\<close>. \<open>expiresAt\<close> is \<^verbatim>\<open>expiresAt.getTime()\<close>, the time value of a
  valid \<^verbatim>\<open>Date\<close>, in milliseconds.
\<close>

definition signing_message :: "TakeOptionsConfig \<Rightarrow> int \<Rightarrow> string" where
  "signing_message config expiresAt =
     (let expires = expiresAt div 1000
      in canonical (build_params config) @ ''&expires='' @ Number_toString expires)"



subsection \<open>The serialization in the words of the specification\<close>

text \<open>
  A parameter value is a scalar: a string, a number or a boolean. Its one string form is
  the string itself, \<^verbatim>\<open>String\<close> of the number, or \<^verbatim>\<open>true\<close>/\<^verbatim>\<open>false\<close>.
\<close>

datatype scalar = Str string | Num number | Boolean bool

fun canonical_form :: "scalar \<Rightarrow> string" where
  "canonical_form (Str s) = s"
| "canonical_form (Num x) = String_of_Number x"
| "canonical_form (Boolean b) = (if b then ''true'' else ''false'')"

text \<open>
  The nineteen options that \<^verbatim>\<open>generateUrl\<close> reads, each under its key and with the type of its
  field.
\<close>

definition scalar_parameters :: "TakeOptionsConfig \<Rightarrow> (string \<times> scalar option) list" where
  "scalar_parameters config =
     [(''url'', map_option Str (url config)),
      (''width'', map_option Num (width config)),
      (''height'', map_option Num (height config)),
      (''scale'', map_option Num (scale config)),
      (''mobile'', map_option Boolean (mobile config)),
      (''full_page'', map_option Boolean (fullPage config)),
      (''element'', map_option Str (element config)),
      (''format'', map_option Str (format config)),
      (''quality'', map_option Num (quality config)),
      (''preset'', map_option Str (preset config)),
      (''device'', map_option Str (device config)),
      (''wait_for'', map_option Str (waitFor config)),
      (''delay'', map_option Num (delay config)),
      (''block_ads'', map_option Boolean (blockAds config)),
      (''block_trackers'', map_option Boolean (blockTrackers config)),
      (''block_cookie_banners'', map_option Boolean (blockCookieBanners config)),
      (''block_chat_widgets'', map_option Boolean (blockChatWidgets config)),
      (''dark_mode'', map_option Boolean (darkMode config)),
      (''cache_ttl'', map_option Num (cacheTtl config))]"

text \<open>The parameters that are present, each with its value.\<close>

definition present :: "(string \<times> 'a option) list \<Rightarrow> (string \<times> 'a) list" where
  "present kvs = List.map_filter (\<lambda>kv. map_option (Pair (fst kv)) (snd kv)) kvs"

definition present_parameters :: "TakeOptionsConfig \<Rightarrow> (string \<times> scalar) list" where
  "present_parameters config = present (scalar_parameters config)"


definition key_value :: "string \<times> scalar \<Rightarrow> string" where
  "key_value p = fst p @ ''='' @ canonical_form (snd p)"

text \<open>
  The message as the specification builds it: the present parameters sorted by key, as
  \<open>key=value\<close> joined by \<open>&\<close>, then \<open>&expires=\<close> and the whole seconds of the expiry.
\<close>

definition canonical_message :: "TakeOptionsConfig \<Rightarrow> int \<Rightarrow> string" where
  "canonical_message config expiresAt =
     join ''&'' (map key_value (sort_key fst (present_parameters config)))
       @ ''&expires='' @ canonical_form (Num (Finite (of_int (expiresAt div 1000))))"

text \<open>An integer that \<^verbatim>\<open>String\<close> writes as its decimal numeral: a safe integer.\<close>

definition safe_integer :: "int \<Rightarrow> bool" where
  "safe_integer n \<longleftrightarrow> \<bar>n\<bar> < 2 ^ 53"


text \<open>
  The keys under which two configurations give \<^verbatim>\<open>generateUrl\<close> different things to serialize:
  a different value, or a value in one and none in the other.
\<close>

definition changed_parameters :: "TakeOptionsConfig \<Rightarrow> TakeOptionsConfig \<Rightarrow> string list" where
  "changed_parameters config config' =
     map (\<lambda>pp. fst (fst pp))
       (filter (\<lambda>pp. snd (fst pp) \<noteq> snd (snd pp))
          (zip (scalar_parameters config) (scalar_parameters config')))"

section \<open>Webhook event parser\<close>

text \<open>
  A decoded JSON value; an object is the list of its own properties. A value that may
  be \<^verbatim>\<open>undefined\<close> is an optional one, \<open>None\<close> being \<^verbatim>\<open>undefined\<close>.
\<close>

datatype json =
    JNull
  | JBool bool
  | JNum number
  | JStr string
  | JArr "json list"
  | JObj "(string \<times> json) list"

text \<open>
  \<^verbatim>\<open>new Date(v)\<close> first converts an object \<open>v\<close> to a primitive, calling its \<^verbatim>\<open>valueOf\<close> and then its
  \<^verbatim>\<open>toString\<close>, and throws a \<^verbatim>\<open>TypeError\<close> when neither gives a primitive. A JSON value holds
  no function. For an object, \<^verbatim>\<open>Object.prototype.valueOf\<close> returns the object itself and
  \<^verbatim>\<open>Object.prototype.toString\<close> returns a string, unless an own property \<^verbatim>\<open>toString\<close> hides it:
  the conversion throws exactly when the object has an own property \<^verbatim>\<open>toString\<close>. For an
  array, \<^verbatim>\<open>Array.prototype.toString\<close> joins the strings of the elements (\<^verbatim>\<open>null\<close> gives the empty
  string) and throws when the conversion of an element does. Any other value is primitive.
\<close>

fun cannot_convert :: "json \<Rightarrow> bool" where
  "cannot_convert (JObj props) = (''toString'' \<in> fst ` set props)"
| "cannot_convert (JArr elements) = list_ex cannot_convert elements"
| "cannot_convert _ = False"

text \<open>
  A \<^verbatim>\<open>Date\<close> object is kept as the value it was made from; it is the invalid date when that
  value is no date (\<^verbatim>\<open>undefined\<close> among others).
\<close>

datatype Date = Date "json option"

definition Date_throws :: "json option \<Rightarrow> bool" where
  "Date_throws v = (case v of None \<Rightarrow> False | Some j \<Rightarrow> cannot_convert j)"

definition new_Date :: "json option \<Rightarrow> js_error + Date" where
  "new_Date v = (if Date_throws v then Inl TypeError else Inr (Date v))"

text \<open>
  Reading a property of \<^verbatim>\<open>undefined\<close> or \<^verbatim>\<open>null\<close> throws a \<^verbatim>\<open>TypeError\<close>. On any other value
  the read gives the own property of an object and \<^verbatim>\<open>undefined\<close> otherwise: none of the
  names read by \<^verbatim>\<open>parseWebhook\<close> is a property of a primitive, of an array or of
  \<^verbatim>\<open>Object.prototype\<close>.
\<close>

definition nullish :: "json option \<Rightarrow> bool" where
  "nullish v \<longleftrightarrow> v = None \<or> v = Some JNull"

definition property :: "json \<Rightarrow> string \<Rightarrow> json option" where
  "property v name = (case v of JObj props \<Rightarrow> map_of props name | _ \<Rightarrow> None)"

text \<open>\<^verbatim>\<open>v ?? d\<close>\<close>

definition nullish_coalesce :: "json option \<Rightarrow> json \<Rightarrow> json" where
  "nullish_coalesce v d = (case v of None \<Rightarrow> d | Some JNull \<Rightarrow> d | Some x \<Rightarrow> x)"

record ScreenshotResponse =
  response_url :: json
  response_width :: json
  response_height :: json
  response_format :: json
  response_size :: json
  response_cached :: json

record ErrorInfo =
  error_code :: string
  error_message :: json

text \<open>\<^verbatim>\<open>WebhookEvent['data']\<close>: an absent property is \<open>None\<close>; \<^verbatim>\<open>{}\<close> has all four absent.\<close>

record WebhookEventData =
  data_url :: "json option"
  data_batchId :: "json option"
  data_response :: "ScreenshotResponse option"
  data_error :: "ErrorInfo option"

definition empty_data :: WebhookEventData where
  "empty_data = \<lparr>data_url = None, data_batchId = None, data_response = None, data_error = None\<rparr>"

record WebhookEvent =
  event_id :: "json option"
  event_type :: "json option"
  event_timestamp :: Date
  event_data :: WebhookEventData

text \<open>\<^verbatim>\<open>string | Record<string, unknown>\<close>\<close>

datatype payload = Text string | Parsed json

text \<open>
  The first statement of \<^verbatim>\<open>parseWebhook\<close>. \<open>JSON_parse\<close> is \<^verbatim>\<open>JSON.parse\<close>, which returns the
  decoded value or throws a \<^verbatim>\<open>SyntaxError\<close>.
\<close>

definition decode :: "(string \<Rightarrow> js_error + json) \<Rightarrow> payload \<Rightarrow> js_error + json" where
  "decode JSON_parse payload =
     (case payload of Text s \<Rightarrow> JSON_parse s | Parsed obj \<Rightarrow> Inr obj)"

text \<open>
  The two \<^verbatim>\<open>screenshot.*\<close> branches, for a \<^verbatim>\<open>data.data\<close> that is neither \<^verbatim>\<open>undefined\<close> nor
  \<^verbatim>\<open>null\<close>.
\<close>

definition completed_data :: "json \<Rightarrow> WebhookEventData" where
  "completed_data d =
     (let eventData = empty_data
        \<lparr>data_response := Some
           \<lparr>response_url = nullish_coalesce (property d ''screenshot_url'') (JStr []),
            response_width = nullish_coalesce (property d ''width'') (JNum (Finite 0)),
            response_height = nullish_coalesce (property d ''height'') (JNum (Finite 0)),
            response_format = nullish_coalesce (property d ''format'') (JStr ''png''),
            response_size = nullish_coalesce (property d ''size'') (JNum (Finite 0)),
            response_cached = nullish_coalesce (property d ''cached'') (JBool False)\<rparr>\<rparr>
      in if property d ''url'' \<noteq> None then eventData\<lparr>data_url := property d ''url''\<rparr>
         else eventData)"

definition failed_data :: "json \<Rightarrow> WebhookEventData" where
  "failed_data d =
     (let eventData = empty_data
        \<lparr>data_error := Some
           \<lparr>error_code = ''render_failed'',
            error_message = nullish_coalesce (property d ''error'') (JStr ''Unknown error'')\<rparr>\<rparr>
      in if property d ''url'' \<noteq> None then eventData\<lparr>data_url := property d ''url''\<rparr>
         else eventData)"

text \<open>
  \<^verbatim>\<open>parseWebhook(payload)\<close>. The reads \<^verbatim>\<open>data.id\<close>, \<^verbatim>\<open>data.event\<close>, \<^verbatim>\<open>data.timestamp\<close> of the object
  literal throw when the decoded value is \<^verbatim>\<open>null\<close>, and \<^verbatim>\<open>new Date(data.timestamp)\<close> throws when
  the timestamp cannot be converted; both happen before the \<^verbatim>\<open>switch\<close>. The reads
  \<^verbatim>\<open>data.data.f\<close> of the two \<^verbatim>\<open>screenshot.*\<close> branches throw when \<^verbatim>\<open>data.data\<close> is \<^verbatim>\<open>undefined\<close> or
  \<^verbatim>\<open>null\<close>. The \<^verbatim>\<open>switch\<close> compares with \<^verbatim>\<open>===\<close>.
\<close>

definition parseWebhook :: "(string \<Rightarrow> js_error + json) \<Rightarrow> payload \<Rightarrow> js_error + WebhookEvent" where
  "parseWebhook JSON_parse payload =
     (case decode JSON_parse payload of
        Inl e \<Rightarrow> Inl e
      | Inr raw \<Rightarrow>
          if nullish (Some raw) then Inl TypeError
          else
            (case new_Date (property raw ''timestamp'') of
               Inl e \<Rightarrow> Inl e
             | Inr timestamp \<Rightarrow>
                 let event = \<lparr>event_id = property raw ''id'',
                              event_type = property raw ''event'',
                              event_timestamp = timestamp,
                              event_data = empty_data\<rparr>
                 in if property raw ''event'' = Some (JStr ''screenshot.completed'') then
                      (case property raw ''data'' of
                         None \<Rightarrow> Inl TypeError
                       | Some JNull \<Rightarrow> Inl TypeError
                       | Some d \<Rightarrow> Inr (event\<lparr>event_data := completed_data d\<rparr>))
                    else if property raw ''event'' = Some (JStr ''screenshot.failed'') then
                      (case property raw ''data'' of
                         None \<Rightarrow> Inl TypeError
                       | Some JNull \<Rightarrow> Inl TypeError
                       | Some d \<Rightarrow> Inr (event\<lparr>event_data := failed_data d\<rparr>))
                    else if property raw ''event'' = Some (JStr ''batch.completed'')
                          \<or> property raw ''event'' = Some (JStr ''batch.failed'') then
                      Inr (event\<lparr>event_data := empty_data\<lparr>data_batchId := property raw ''id''\<rparr>\<rparr>)
                    else Inr event))"

text \<open>The event types the parser knows.\<close>

definition known_event_types :: "string list" where
  "known_event_types =
     [''screenshot.completed'', ''screenshot.failed'', ''batch.completed'', ''batch.failed'']"

text \<open>
  The shape that the interface \<^verbatim>\<open>WebhookEvent\<close> declares, checked on the values at run time:
  \<^verbatim>\<open>id\<close> and \<^verbatim>\<open>type\<close> are strings, \<^verbatim>\<open>timestamp\<close> is a \<^verbatim>\<open>Date\<close> object (it is one by construction),
  and each property of \<^verbatim>\<open>data\<close> that is present has the declared type. For an event type
  outside the declared four, \<^verbatim>\<open>type\<close> can be no more than a string.
\<close>

definition is_string :: "json option \<Rightarrow> bool" where
  "is_string v = (case v of Some (JStr s) \<Rightarrow> True | _ \<Rightarrow> False)"

definition is_number :: "json \<Rightarrow> bool" where
  "is_number v = (case v of JNum x \<Rightarrow> True | _ \<Rightarrow> False)"

definition is_boolean :: "json \<Rightarrow> bool" where
  "is_boolean v = (case v of JBool b \<Rightarrow> True | _ \<Rightarrow> False)"

definition valid_response :: "ScreenshotResponse \<Rightarrow> bool" where
  "valid_response r \<longleftrightarrow>
     is_string (Some (response_url r)) \<and> is_number (response_width r)
     \<and> is_number (response_height r) \<and> is_string (Some (response_format r))
     \<and> is_number (response_size r) \<and> is_boolean (response_cached r)"

definition valid_data :: "WebhookEventData \<Rightarrow> bool" where
  "valid_data d \<longleftrightarrow>
     (data_url d = None \<or> is_string (data_url d))
     \<and> (data_batchId d = None \<or> is_string (data_batchId d))
     \<and> (case data_response d of None \<Rightarrow> True | Some r \<Rightarrow> valid_response r)
     \<and> (case data_error d of None \<Rightarrow> True | Some e \<Rightarrow> is_string (Some (error_message e)))"

definition structurally_valid :: "WebhookEvent \<Rightarrow> bool" where
  "structurally_valid event \<longleftrightarrow>
     is_string (event_id event) \<and> is_string (event_type event) \<and> valid_data (event_data event)"

section \<open>Properties of the host-language functions\<close>

lemma is_digit_digit_char: "d < 10 \<Longrightarrow> is_digit (digit_char d)"
  by (simp add: is_digit_def digit_char_def)

lemma digit_val_digit_char: "d < 10 \<Longrightarrow> digit_val (digit_char d) = d"
  by (simp add: digit_val_def digit_char_def)

lemma decimal_nonempty: "decimal n \<noteq> []"
  by (subst decimal.simps) simp

lemma decimal_all_digits: "c \<in> set (decimal n) \<Longrightarrow> is_digit c"
proof (induction n arbitrary: c rule: decimal.induct)
  case (1 n)
  show ?case
  proof (cases "n < 10")
    case True
    with "1.prems" show ?thesis
      by (subst (asm) decimal.simps) (simp add: is_digit_digit_char)
  next
    case False
    with "1.prems" have "c \<in> set (decimal (n div 10)) \<or> c = digit_char (n mod 10)"
      by (subst (asm) decimal.simps) auto
    with False "1.IH" show ?thesis
      by (auto simp: is_digit_digit_char)
  qed
qed

lemma digits_value_snoc: "digits_value (Z @ [c]) = 10 * digits_value Z + digit_val c"
  by (simp add: digits_value_def)

lemma digits_value_decimal: "digits_value (decimal n) = n"
proof (induction n rule: decimal.induct)
  case (1 n)
  show ?case
  proof (cases "n < 10")
    case True
    then show ?thesis
      by (subst decimal.simps) (simp add: digits_value_def digit_val_digit_char)
  next
    case False
    with "1.IH" show ?thesis
      by (subst decimal.simps) (simp add: digits_value_snoc digit_val_digit_char)
  qed
qed

lemma takeWhile_decimal: "takeWhile is_digit (decimal n) = decimal n"
  by (simp add: takeWhile_eq_all_conv decimal_all_digits)

lemma trim_start_no_white_space:
  assumes "of_char c \<in> {43 :: nat, 45} \<or> is_digit c"
  shows "trim_start (c # cs) = c # cs"
proof -
  have "\<forall>w \<in> set WhiteSpace. \<not> prefix w (c # cs)"
    using assms by (auto simp: WhiteSpace_def is_digit_def)
  then have "find (\<lambda>w. prefix w (c # cs)) WhiteSpace = None"
    by (simp add: find_None_iff)
  then show ?thesis
    by (subst trim_start.simps) simp
qed

lemma is_digit_not_sign: "is_digit c \<Longrightarrow> c \<noteq> CHR ''+'' \<and> c \<noteq> CHR ''-''"
  by (auto simp: is_digit_def)

lemma parseInt_leading_digit:
  assumes "is_digit d"
  shows "parseInt (d # ds) = Some (int (digits_value (d # takeWhile is_digit ds)))"
proof -
  have trim: "trim_start (d # ds) = d # ds"
    using assms by (simp add: trim_start_no_white_space)
  from assms have "d \<noteq> CHR ''+''" and "d \<noteq> CHR ''-''"
    by (simp_all add: is_digit_not_sign)
  with assms show ?thesis
    by (simp add: parseInt_def trim Let_def)
qed

lemma parseInt_decimal: "parseInt (decimal n) = Some (int n)"
proof -
  obtain d ds where d: "decimal n = d # ds"
    using decimal_nonempty [of n] by (cases "decimal n") auto
  then have dig: "is_digit d"
    using decimal_all_digits [of d n] by simp
  have "takeWhile is_digit (d # ds) = d # ds"
    using takeWhile_decimal [of n] by (simp only: d)
  with dig have "d # takeWhile is_digit ds = decimal n"
    by (simp add: d)
  with parseInt_leading_digit [OF dig, of ds] show ?thesis
    by (simp add: d [symmetric] digits_value_decimal)
qed

lemma parseInt_minus_decimal: "parseInt (''-'' @ decimal n) = Some (- int n)"
proof -
  have trim: "trim_start (CHR ''-'' # decimal n) = CHR ''-'' # decimal n"
    by (rule trim_start_no_white_space) simp
  show ?thesis
    by (simp add: parseInt_def trim Let_def takeWhile_decimal decimal_nonempty
        digits_value_decimal)
qed

lemma positive_toString_int:
  assumes "0 \<le> n" and "n < 2 ^ 53"
  shows "positive_toString (of_int n) = decimal (nat n)"
proof -
  from assms(2) have "rat_of_int n < 2 ^ 53"
    by simp
  then have "of_int \<lfloor>rat_of_int n\<rfloor> = rat_of_int n \<and> rat_of_int n < 2 ^ 53"
    by simp
  then have "positive_toString (of_int n) = decimal (nat \<lfloor>rat_of_int n\<rfloor>)"
    unfolding positive_toString_def by (rule if_P)
  then show ?thesis
    by simp
qed

lemma Number_toString_safe:
  "\<bar>x\<bar> < 2 ^ 53 \<Longrightarrow>
     Number_toString x = (if x < 0 then ''-'' @ decimal (nat (- x)) else decimal (nat x))"
  using positive_toString_int [of x] positive_toString_int [of "- x"]
  by (auto simp: Number_toString_def)

lemma parseInt_Number_toString: "\<bar>x\<bar> < 2 ^ 53 \<Longrightarrow> parseInt (Number_toString x) = Some x"
  using parseInt_decimal [of "nat x"] parseInt_minus_decimal [of "nat (- x)"]
  by (simp add: Number_toString_safe)

lemma Number_toString_nonempty: "\<bar>x\<bar> < 2 ^ 53 \<Longrightarrow> Number_toString x \<noteq> []"
  by (simp add: Number_toString_safe decimal_nonempty)

lemma parseInt_None_iff: "parseInt s = None \<longleftrightarrow> \<not> starts_with_integer s"
  by (cases "trim_start s"; cases "tl (trim_start s)")
     (auto simp: parseInt_def starts_with_integer_def Let_def takeWhile_eq_Nil_iff
           dest: is_digit_not_sign)

lemma time_value_seconds:
  assumes "time_value Date_now" and "\<bar>Date_now div 1000 - t\<bar> \<le> 301"
  shows "\<bar>t\<bar> < 2 ^ 53"
proof -
  from assms(1) have "\<bar>Date_now div 1000\<bar> \<le> 8640000000000"
    unfolding time_value_def by linarith
  with assms(2) show ?thesis by simp
qed

subsection \<open>The outcomes of the verifier\<close>

lemma parseInt_empty: "parseInt [] = None"
  by (simp add: parseInt_def trim_start.simps WhiteSpace_def)

lemma verifyWebhook_signed:
  assumes "payload \<noteq> []" and "secret \<noteq> []" and "timestamp \<noteq> []"
    and "parseInt timestamp = Some n" and "\<bar>Date_now div 1000 - n\<bar> \<le> 300"
  shows "verifyWebhook hmac Date_now payload
           (createValidSignature hmac secret payload timestamp) timestamp secret"
  using assms
  by (simp add: verifyWebhook_def createValidSignature_def timingSafeEqual_def Buffer_from_def)

lemma verifyWebhook_stale:
  assumes "parseInt timestamp = Some n" and "\<bar>Date_now div 1000 - n\<bar> > 300"
  shows "\<not> verifyWebhook hmac Date_now payload signature timestamp secret"
  using assms by (simp add: verifyWebhook_def)

lemma verifyWebhook_unequal:
  assumes "signature \<noteq> ''sha256='' @ hmac secret (timestamp @ ''.'' @ payload)"
  shows "\<not> verifyWebhook hmac Date_now payload signature timestamp secret"
  using assms
  by (auto simp: verifyWebhook_def timingSafeEqual_def Buffer_from_def Let_def
           split: option.splits)

lemma digit_char_simps:
  "digit_char 0 = CHR ''0''" "digit_char 1 = CHR ''1''" "digit_char (Suc 0) = CHR ''1''"
  "digit_char 2 = CHR ''2''" "digit_char 3 = CHR ''3''" "digit_char 4 = CHR ''4''"
  "digit_char 5 = CHR ''5''" "digit_char 6 = CHR ''6''" "digit_char 7 = CHR ''7''"
  "digit_char 8 = CHR ''8''" "digit_char 9 = CHR ''9''"
  by (simp_all add: digit_char_def char_of_def bit_iff_odd)

lemma parseInt_scenario: "parseInt ''1705579200'' = Some 1705579200"
proof -
  have "decimal 1705579200 = ''1705579200''"
    by (simp add: decimal.simps digit_char_simps)
  then show ?thesis
    using parseInt_decimal [of 1705579200] by simp
qed

section \<open>Claims about the webhook verifier\<close>

text \<open>
  C1 (round-trip acceptance). For every non-empty payload, non-empty secret and integer
  timestamp \<open>t\<close> within 300 seconds of the clock's current second, \<^verbatim>\<open>verifyWebhook\<close> called
  with the payload, the signature \<^verbatim>\<open>"sha256=" + hex(HMAC-SHA256(S, String(t) + "." + payload))\<close>,
  the timestamp \<^verbatim>\<open>String(t)\<close> and the secret returns \<^verbatim>\<open>true\<close>. The clock reading is any time
  value, the digest any function of key and message.
\<close>

theorem verifyWebhook_round_trip:
  assumes "payload \<noteq> []" and "secret \<noteq> []"
    and "time_value Date_now" and "\<bar>Date_now div 1000 - t\<bar> \<le> 300"
  shows "verifyWebhook hmac Date_now payload
           (''sha256='' @ hmac secret (Number_toString t @ ''.'' @ payload))
           (Number_toString t) secret = True"
proof -
  have safe: "\<bar>t\<bar> < 2 ^ 53"
    using assms(3,4) by (intro time_value_seconds [of Date_now t]) simp_all
  then have "parseInt (Number_toString t) = Some t" and "Number_toString t \<noteq> []"
    by (simp_all add: parseInt_Number_toString Number_toString_nonempty)
  with assms(1,2,4) show ?thesis
    using verifyWebhook_signed [of payload secret "Number_toString t" t Date_now hmac]
    by (simp add: createValidSignature_def)
qed

theorem verifyWebhook_round_trip_witness:
  "''{}'' \<noteq> [] \<and> ''whsec_test_secret_key'' \<noteq> [] \<and> time_value 1705579200000 \<and>
   \<bar>1705579200000 div 1000 - 1705578960\<bar> \<le> (300 :: int) \<and>
   verifyWebhook example_hmac 1705579200000 ''{}''
     (''sha256='' @ example_hmac ''whsec_test_secret_key'' (Number_toString 1705578960 @ ''.'' @ ''{}''))
     (Number_toString 1705578960) ''whsec_test_secret_key'' = True"
  using verifyWebhook_round_trip [of "''{}''" "''whsec_test_secret_key''" 1705579200000 1705578960
      example_hmac]
  by (simp add: time_value_def)

text \<open>
  C2 (concrete scenario). Secret \<^verbatim>\<open>whsec_test_secret_key\<close>, payload
  \<^verbatim>\<open>{"event":"screenshot.completed","id":"req_abc123"}\<close>, timestamp \<^verbatim>\<open>1705579200\<close>, and the
  signature \<^verbatim>\<open>sha256=\<close> followed by the hex HMAC-SHA256 of \<^verbatim>\<open>1705579200.\<close> and the payload under
  that secret: \<^verbatim>\<open>verifyWebhook\<close> returns \<^verbatim>\<open>true\<close> when the clock is at second 1705579200 and
  \<^verbatim>\<open>false\<close> when it is at second 1705579200 + 3600.
\<close>

theorem verifyWebhook_concrete_scenario:
  \<open>(Date_now div 1000 = 1705579200 \<longrightarrow>
      verifyWebhook hmac Date_now ''{"event":"screenshot.completed","id":"req_abc123"}''
        (''sha256='' @ hmac ''whsec_test_secret_key''
           (''1705579200.'' @ ''{"event":"screenshot.completed","id":"req_abc123"}''))
        ''1705579200'' ''whsec_test_secret_key'' = True) \<and>
   (Date_now div 1000 = 1705579200 + 3600 \<longrightarrow>
      verifyWebhook hmac Date_now ''{"event":"screenshot.completed","id":"req_abc123"}''
        (''sha256='' @ hmac ''whsec_test_secret_key''
           (''1705579200.'' @ ''{"event":"screenshot.completed","id":"req_abc123"}''))
        ''1705579200'' ''whsec_test_secret_key'' = False)\<close>
  by (simp add: verifyWebhook_def parseInt_scenario timingSafeEqual_def Buffer_from_def)

theorem verifyWebhook_concrete_scenario_witness:
  \<open>(1705579200000 :: int) div 1000 = 1705579200 \<and>
   verifyWebhook example_hmac 1705579200000 ''{"event":"screenshot.completed","id":"req_abc123"}''
     (''sha256='' @ example_hmac ''whsec_test_secret_key''
        (''1705579200.'' @ ''{"event":"screenshot.completed","id":"req_abc123"}''))
     ''1705579200'' ''whsec_test_secret_key'' = True \<and>
   (1705582800000 :: int) div 1000 = 1705579200 + 3600 \<and>
   verifyWebhook example_hmac 1705582800000 ''{"event":"screenshot.completed","id":"req_abc123"}''
     (''sha256='' @ example_hmac ''whsec_test_secret_key''
        (''1705579200.'' @ ''{"event":"screenshot.completed","id":"req_abc123"}''))
     ''1705579200'' ''whsec_test_secret_key'' = False\<close>
  using verifyWebhook_concrete_scenario [of 1705579200000 example_hmac]
    verifyWebhook_concrete_scenario [of 1705582800000 example_hmac]
  by simp

text \<open>
  C3 (boundary timing). For a correctly signed payload, a timestamp that reads as the
  clock's current second minus 299 or plus 299 is accepted; a timestamp that reads as
  the current second minus 301 or plus 301 is rejected, whatever the signature. The
  tolerance is the same in both directions.
\<close>

theorem verifyWebhook_boundary_timing:
  assumes "payload \<noteq> []" and "secret \<noteq> []"
  shows "(parseInt timestamp = Some (Date_now div 1000 - 299)
            \<or> parseInt timestamp = Some (Date_now div 1000 + 299) \<longrightarrow>
          verifyWebhook hmac Date_now payload
            (createValidSignature hmac secret payload timestamp) timestamp secret = True)
       \<and> (parseInt timestamp = Some (Date_now div 1000 - 301)
            \<or> parseInt timestamp = Some (Date_now div 1000 + 301) \<longrightarrow>
          verifyWebhook hmac Date_now payload signature timestamp secret = False)"
proof -
  have accept: "verifyWebhook hmac Date_now payload
      (createValidSignature hmac secret payload timestamp) timestamp secret"
    if "parseInt timestamp = Some (Date_now div 1000 + d)" and "\<bar>d\<bar> \<le> 300" for d
  proof -
    from that(1) have "timestamp \<noteq> []"
      using parseInt_empty by auto
    with assms that show ?thesis
      by (intro verifyWebhook_signed [where n = "Date_now div 1000 + d"]) simp_all
  qed
  have reject: "\<not> verifyWebhook hmac Date_now payload signature timestamp secret"
    if "parseInt timestamp = Some (Date_now div 1000 + d)" and "\<bar>d\<bar> > 300" for d
    using that by (intro verifyWebhook_stale [where n = "Date_now div 1000 + d"]) simp_all
  from accept [of "- 299"] accept [of 299] reject [of "- 301"] reject [of 301]
  show ?thesis
    by auto
qed

theorem verifyWebhook_boundary_timing_witness:
  "''{}'' \<noteq> [] \<and> ''whsec_test_secret_key'' \<noteq> [] \<and>
   parseInt ''1705578901'' = Some (1705579200000 div 1000 - 299) \<and>
   verifyWebhook example_hmac 1705579200000 ''{}''
     (createValidSignature example_hmac ''whsec_test_secret_key'' ''{}'' ''1705578901'')
     ''1705578901'' ''whsec_test_secret_key'' = True \<and>
   parseInt ''1705579499'' = Some (1705579200000 div 1000 + 299) \<and>
   verifyWebhook example_hmac 1705579200000 ''{}''
     (createValidSignature example_hmac ''whsec_test_secret_key'' ''{}'' ''1705579499'')
     ''1705579499'' ''whsec_test_secret_key'' = True \<and>
   parseInt ''1705578899'' = Some (1705579200000 div 1000 - 301) \<and>
   verifyWebhook example_hmac 1705579200000 ''{}''
     (createValidSignature example_hmac ''whsec_test_secret_key'' ''{}'' ''1705578899'')
     ''1705578899'' ''whsec_test_secret_key'' = False \<and>
   parseInt ''1705579501'' = Some (1705579200000 div 1000 + 301) \<and>
   verifyWebhook example_hmac 1705579200000 ''{}''
     (createValidSignature example_hmac ''whsec_test_secret_key'' ''{}'' ''1705579501'')
     ''1705579501'' ''whsec_test_secret_key'' = False"
proof -
  have parse:
    "parseInt ''1705578901'' = Some 1705578901" "parseInt ''1705579499'' = Some 1705579499"
    "parseInt ''1705578899'' = Some 1705578899" "parseInt ''1705579501'' = Some 1705579501"
    by (simp_all add: parseInt_leading_digit is_digit_def digits_value_def digit_val_def)
  from parse
    verifyWebhook_boundary_timing [where payload = "''{}''" and secret = "''whsec_test_secret_key''"
      and timestamp = "''1705578901''" and Date_now = 1705579200000 and hmac = example_hmac]
    verifyWebhook_boundary_timing [where payload = "''{}''" and secret = "''whsec_test_secret_key''"
      and timestamp = "''1705579499''" and Date_now = 1705579200000 and hmac = example_hmac]
    verifyWebhook_boundary_timing [where payload = "''{}''" and secret = "''whsec_test_secret_key''"
      and timestamp = "''1705578899''" and Date_now = 1705579200000 and hmac = example_hmac
      and signature = "createValidSignature example_hmac ''whsec_test_secret_key'' ''{}'' ''1705578899''"]
    verifyWebhook_boundary_timing [where payload = "''{}''" and secret = "''whsec_test_secret_key''"
      and timestamp = "''1705579501''" and Date_now = 1705579200000 and hmac = example_hmac
      and signature = "createValidSignature example_hmac ''whsec_test_secret_key'' ''{}'' ''1705579501''"]
  show ?thesis
    by simp
qed

lemma parseInt_trailing: "parseInt ''1705579200abc'' = Some 1705579200"
  by (simp add: parseInt_leading_digit is_digit_def digits_value_def digit_val_def)

lemma parseInt_fraction: "parseInt ''1705579200.5'' = Some 1705579200"
  by (simp add: parseInt_leading_digit is_digit_def digits_value_def digit_val_def)

lemma example_hmac_nonempty: "key \<noteq> [] \<Longrightarrow> example_hmac key message \<noteq> []"
  by (cases key) (simp_all add: example_hmac_def decimal_nonempty)

lemma integer_numeral_starts: "integer_numeral s \<Longrightarrow> starts_with_integer s"
proof (cases s)
  case Nil
  then show "integer_numeral s \<Longrightarrow> starts_with_integer s"
    by (simp add: integer_numeral_def)
next
  case (Cons c cs)
  assume num: "integer_numeral s"
  show "starts_with_integer s"
  proof (cases "c = CHR ''-''")
    case True
    then have "trim_start (c # cs) = c # cs"
      by (simp add: trim_start_no_white_space)
    with num Cons True show ?thesis
      by (cases cs) (simp_all add: integer_numeral_def starts_with_integer_def)
  next
    case False
    with num Cons have dig: "is_digit c"
      by (simp add: integer_numeral_def)
    then have "trim_start (c # cs) = c # cs"
      by (simp add: trim_start_no_white_space)
    with dig Cons show ?thesis
      by (simp add: starts_with_integer_def is_digit_not_sign)
  qed
qed

text \<open>
  C4 (malformed input fails closed), as amended. \<^verbatim>\<open>verifyWebhook\<close> returns \<^verbatim>\<open>false\<close> whenever
  the payload, the signature, the timestamp or the secret is the empty string, whatever
  the other arguments are, and whenever the timestamp does not start with an integer
  (after leading white space and an optional sign there is no decimal digit, so that
  \<^verbatim>\<open>parseInt\<close> yields \<^verbatim>\<open>NaN\<close>). The function has no path that raises: its only throwing call
  is inside the \<^verbatim>\<open>try\<close>. The claim as stated, for every non-numeric timestamp, fails: the
  timestamp \<^verbatim>\<open>1705579200abc\<close> is not a number, \<^verbatim>\<open>parseInt\<close> reads 1705579200 from it, and a
  webhook signed over that string is accepted.
\<close>

theorem verifyWebhook_fail_closed:
  assumes "payload = [] \<or> signature = [] \<or> timestamp = [] \<or> secret = []
         \<or> \<not> starts_with_integer timestamp"
  shows "verifyWebhook hmac Date_now payload signature timestamp secret = False"
  using assms parseInt_None_iff [of timestamp]
  by (auto simp: verifyWebhook_def)

theorem verifyWebhook_fail_closed_witness:
  "\<not> starts_with_integer ''not_a_number'' \<and>
   verifyWebhook example_hmac 1705579200000 ''{}''
     (createValidSignature example_hmac ''whsec_test_secret_key'' ''{}'' ''not_a_number'')
     ''not_a_number'' ''whsec_test_secret_key'' = False \<and>
   verifyWebhook example_hmac 1705579200000 [] ''sha256=xxx'' ''1705579200''
     ''whsec_test_secret_key'' = False \<and>
   verifyWebhook example_hmac 1705579200000 ''{}'' [] ''1705579200''
     ''whsec_test_secret_key'' = False \<and>
   verifyWebhook example_hmac 1705579200000 ''{}'' ''sha256=xxx'' []
     ''whsec_test_secret_key'' = False \<and>
   verifyWebhook example_hmac 1705579200000 ''{}'' ''sha256=xxx'' ''1705579200'' [] = False"
proof -
  have malformed: "\<not> starts_with_integer ''not_a_number''"
    by (simp add: starts_with_integer_def trim_start.simps WhiteSpace_def is_digit_def)
  show ?thesis
    using malformed
      verifyWebhook_fail_closed [of "''{}''"
        "createValidSignature example_hmac ''whsec_test_secret_key'' ''{}'' ''not_a_number''"
        "''not_a_number''" "''whsec_test_secret_key''" example_hmac 1705579200000]
      verifyWebhook_fail_closed [of "[]" "''sha256=xxx''" "''1705579200''"
        "''whsec_test_secret_key''" example_hmac 1705579200000]
      verifyWebhook_fail_closed [of "''{}''" "[]" "''1705579200''"
        "''whsec_test_secret_key''" example_hmac 1705579200000]
      verifyWebhook_fail_closed [of "''{}''" "''sha256=xxx''" "[]"
        "''whsec_test_secret_key''" example_hmac 1705579200000]
      verifyWebhook_fail_closed [of "''{}''" "''sha256=xxx''" "''1705579200''" "[]"
        example_hmac 1705579200000]
    by simp
qed

theorem verifyWebhook_fail_closed_counterexample:
  "\<not> integer_numeral ''1705579200abc'' \<and>
   verifyWebhook example_hmac 1705579200000 ''{}''
     (createValidSignature example_hmac ''whsec_test_secret_key'' ''{}'' ''1705579200abc'')
     ''1705579200abc'' ''whsec_test_secret_key'' = True"
proof -
  have "\<not> integer_numeral ''1705579200abc''"
    by (simp add: integer_numeral_def is_digit_def)
  moreover have "verifyWebhook example_hmac 1705579200000 ''{}''
     (createValidSignature example_hmac ''whsec_test_secret_key'' ''{}'' ''1705579200abc'')
     ''1705579200abc'' ''whsec_test_secret_key''"
    by (rule verifyWebhook_signed [where n = 1705579200]) (simp_all add: parseInt_trailing)
  ultimately show ?thesis by simp
qed

text \<open>
  C5 (length mismatch in the final comparison). When the received signature and the
  expected string \<^verbatim>\<open>sha256=<digest>\<close> differ in length, \<^verbatim>\<open>timingSafeEqual\<close> raises its
  \<^verbatim>\<open>RangeError\<close>, the \<^verbatim>\<open>catch\<close> turns it into \<^verbatim>\<open>false\<close>, and \<^verbatim>\<open>verifyWebhook\<close> returns \<^verbatim>\<open>false\<close>:
  this holds for every input, hence for every input that reaches the comparison. The
  length is the byte length, which \<^verbatim>\<open>timingSafeEqual\<close> compares; two strings that differ in
  their number of characters and not in their number of bytes are unequal, and
  \<open>verifyWebhook_unequal\<close> gives \<^verbatim>\<open>false\<close> for them as well.
\<close>

theorem verifyWebhook_length_mismatch:
  assumes "length signature \<noteq> length (''sha256='' @ hmac secret (timestamp @ ''.'' @ payload))"
  shows "timingSafeEqual (Buffer_from (''sha256='' @ hmac secret (timestamp @ ''.'' @ payload)))
           (Buffer_from signature) = Inl RangeError
       \<and> verifyWebhook hmac Date_now payload signature timestamp secret = False"
proof -
  from assms have "signature \<noteq> ''sha256='' @ hmac secret (timestamp @ ''.'' @ payload)"
    by auto
  then have "\<not> verifyWebhook hmac Date_now payload signature timestamp secret"
    by (rule verifyWebhook_unequal)
  with assms show ?thesis
    by (auto simp: timingSafeEqual_def Buffer_from_def)
qed

theorem verifyWebhook_length_mismatch_witness:
  "length ''sha256='' \<noteq>
     length (''sha256='' @ example_hmac ''whsec_test_secret_key'' (''1705579200'' @ ''.'' @ ''{}'')) \<and>
   timingSafeEqual
     (Buffer_from (''sha256='' @ example_hmac ''whsec_test_secret_key'' (''1705579200'' @ ''.'' @ ''{}'')))
     (Buffer_from ''sha256='') = Inl RangeError \<and>
   verifyWebhook example_hmac 1705579200000 ''{}'' ''sha256='' ''1705579200''
     ''whsec_test_secret_key'' = False"
proof -
  have "example_hmac ''whsec_test_secret_key'' (''1705579200'' @ ''.'' @ ''{}'') \<noteq> []"
    by (rule example_hmac_nonempty) simp
  then have neq: "length ''sha256='' \<noteq>
     length (''sha256='' @ example_hmac ''whsec_test_secret_key'' (''1705579200'' @ ''.'' @ ''{}''))"
    by simp
  from neq verifyWebhook_length_mismatch [where signature = "''sha256=''"
      and hmac = example_hmac and secret = "''whsec_test_secret_key''"
      and timestamp = "''1705579200''" and payload = "''{}''" and Date_now = 1705579200000]
  show ?thesis by simp
qed

text \<open>
  C6 (timestamp parse gate), as amended. \<^verbatim>\<open>verifyWebhook\<close> returns \<^verbatim>\<open>true\<close> only when the
  timestamp starts with an integer: after leading white space and an optional sign
  comes a decimal digit, \<^verbatim>\<open>parseInt\<close> reads the integer \<open>n\<close> of the leading digits, and \<open>n\<close> is
  within 300 seconds of the clock. Characters after the leading digits do not stop the
  parse, so the claim as stated (false for every string that is not a decimal integer
  numeral) fails: \<^verbatim>\<open>1705579200.5\<close> is not an integer numeral and a webhook signed over it
  is accepted.
\<close>

theorem verifyWebhook_timestamp_gate:
  assumes "verifyWebhook hmac Date_now payload signature timestamp secret = True"
  shows "starts_with_integer timestamp
       \<and> (\<exists>n. parseInt timestamp = Some n \<and> \<bar>Date_now div 1000 - n\<bar> \<le> 300)"
  using assms parseInt_None_iff [of timestamp]
  by (auto simp: verifyWebhook_def Let_def split: option.splits if_splits)

theorem verifyWebhook_timestamp_gate_witness:
  "verifyWebhook example_hmac 1705579200000 ''{}''
     (createValidSignature example_hmac ''whsec_test_secret_key'' ''{}'' ''1705579200'')
     ''1705579200'' ''whsec_test_secret_key'' = True \<and>
   starts_with_integer ''1705579200'' \<and>
   (\<exists>n. parseInt ''1705579200'' = Some n \<and> \<bar>1705579200000 div 1000 - n\<bar> \<le> 300)"
proof -
  have ok: "verifyWebhook example_hmac 1705579200000 ''{}''
     (createValidSignature example_hmac ''whsec_test_secret_key'' ''{}'' ''1705579200'')
     ''1705579200'' ''whsec_test_secret_key'' = True"
    using verifyWebhook_signed [where n = 1705579200 and timestamp = "''1705579200''"
        and payload = "''{}''" and secret = "''whsec_test_secret_key''"
        and Date_now = 1705579200000 and hmac = example_hmac]
    by (simp add: parseInt_scenario)
  from verifyWebhook_timestamp_gate [OF ok] ok show ?thesis
    by simp
qed

theorem verifyWebhook_timestamp_gate_counterexample:
  "\<not> integer_numeral ''1705579200.5'' \<and>
   verifyWebhook example_hmac 1705579200000 ''{}''
     (createValidSignature example_hmac ''whsec_test_secret_key'' ''{}'' ''1705579200.5'')
     ''1705579200.5'' ''whsec_test_secret_key'' = True"
proof -
  have "\<not> integer_numeral ''1705579200.5''"
    by (simp add: integer_numeral_def is_digit_def)
  moreover have "verifyWebhook example_hmac 1705579200000 ''{}''
     (createValidSignature example_hmac ''whsec_test_secret_key'' ''{}'' ''1705579200.5'')
     ''1705579200.5'' ''whsec_test_secret_key''"
    by (rule verifyWebhook_signed [where n = 1705579200]) (simp_all add: parseInt_fraction)
  ultimately show ?thesis by simp
qed

section \<open>Claims about the webhook event parser\<close>

text \<open>
  C9 (lenient forward compatibility), as amended. For every payload that decodes to an
  object whose \<^verbatim>\<open>event\<close> field is a string other than the four known event types, the \<^verbatim>\<open>switch\<close>
  of \<^verbatim>\<open>parseWebhook\<close> matches no case, and the outcome is decided by \<^verbatim>\<open>new Date(data.timestamp)\<close>:
  when the payload's \<^verbatim>\<open>timestamp\<close> is an object with a property \<^verbatim>\<open>toString\<close> (or an array that
  holds one) the parser throws a \<^verbatim>\<open>TypeError\<close>; in every other case it returns the event that
  carries the payload's \<^verbatim>\<open>id\<close>, its \<^verbatim>\<open>event\<close> string as type, the date made from its
  \<^verbatim>\<open>timestamp\<close>, and the empty data object \<^verbatim>\<open>{}\<close>. That event has the declared shape exactly
  when the payload's \<^verbatim>\<open>id\<close> is a string: the parser copies what it finds and checks
  nothing. As stated (no throw, and a structurally valid event, for every such payload)
  the claim fails on both counts.
\<close>

theorem parseWebhook_unknown_event:
  assumes "decode JSON_parse payload = Inr (JObj props)"
    and "map_of props ''event'' = Some (JStr e)"
    and "e \<notin> set known_event_types"
  shows "parseWebhook JSON_parse payload =
           (if Date_throws (map_of props ''timestamp'') then Inl TypeError
            else Inr \<lparr>event_id = map_of props ''id'',
                      event_type = Some (JStr e),
                      event_timestamp = Date (map_of props ''timestamp''),
                      event_data = \<lparr>data_url = None, data_batchId = None,
                                     data_response = None, data_error = None\<rparr>\<rparr>)
       \<and> (structurally_valid
             \<lparr>event_id = map_of props ''id'',
              event_type = Some (JStr e),
              event_timestamp = Date (map_of props ''timestamp''),
              event_data = \<lparr>data_url = None, data_batchId = None,
                             data_response = None, data_error = None\<rparr>\<rparr>
            \<longleftrightarrow> is_string (map_of props ''id''))"
  using assms
  by (auto simp: parseWebhook_def nullish_def property_def known_event_types_def empty_data_def
      new_Date_def structurally_valid_def valid_data_def is_string_def)

theorem parseWebhook_unknown_event_witness:
  \<open>decode (\<lambda>s. if s = ''{"event":"cache.purged","id":"evt_1","timestamp":"2024-01-18T12:00:00Z"}''
               then Inr (JObj [(''event'', JStr ''cache.purged''), (''id'', JStr ''evt_1''),
                               (''timestamp'', JStr ''2024-01-18T12:00:00Z'')])
               else Inl SyntaxError)
      (Text ''{"event":"cache.purged","id":"evt_1","timestamp":"2024-01-18T12:00:00Z"}'')
     = Inr (JObj [(''event'', JStr ''cache.purged''), (''id'', JStr ''evt_1''),
                  (''timestamp'', JStr ''2024-01-18T12:00:00Z'')]) \<and>
   map_of [(''event'', JStr ''cache.purged''), (''id'', JStr ''evt_1''),
           (''timestamp'', JStr ''2024-01-18T12:00:00Z'')] ''event'' = Some (JStr ''cache.purged'') \<and>
   ''cache.purged'' \<notin> set known_event_types \<and>
   parseWebhook
      (\<lambda>s. if s = ''{"event":"cache.purged","id":"evt_1","timestamp":"2024-01-18T12:00:00Z"}''
            then Inr (JObj [(''event'', JStr ''cache.purged''), (''id'', JStr ''evt_1''),
                            (''timestamp'', JStr ''2024-01-18T12:00:00Z'')])
            else Inl SyntaxError)
      (Text ''{"event":"cache.purged","id":"evt_1","timestamp":"2024-01-18T12:00:00Z"}'')
     = Inr \<lparr>event_id = Some (JStr ''evt_1''),
            event_type = Some (JStr ''cache.purged''),
            event_timestamp = Date (Some (JStr ''2024-01-18T12:00:00Z'')),
            event_data = \<lparr>data_url = None, data_batchId = None, data_response = None,
                           data_error = None\<rparr>\<rparr> \<and>
   structurally_valid
     \<lparr>event_id = Some (JStr ''evt_1''),
      event_type = Some (JStr ''cache.purged''),
      event_timestamp = Date (Some (JStr ''2024-01-18T12:00:00Z'')),
      event_data = \<lparr>data_url = None, data_batchId = None, data_response = None,
                     data_error = None\<rparr>\<rparr>\<close>
  using parseWebhook_unknown_event
    [of "\<lambda>s. if s = ''{\"event\":\"cache.purged\",\"id\":\"evt_1\",\"timestamp\":\"2024-01-18T12:00:00Z\"}''
               then Inr (JObj [(''event'', JStr ''cache.purged''), (''id'', JStr ''evt_1''),
                               (''timestamp'', JStr ''2024-01-18T12:00:00Z'')])
               else Inl SyntaxError"
        "Text ''{\"event\":\"cache.purged\",\"id\":\"evt_1\",\"timestamp\":\"2024-01-18T12:00:00Z\"}''"
        "[(''event'', JStr ''cache.purged''), (''id'', JStr ''evt_1''),
          (''timestamp'', JStr ''2024-01-18T12:00:00Z'')]"
        "''cache.purged''"]
  by (simp add: decode_def known_event_types_def Date_throws_def is_string_def)

theorem parseWebhook_unknown_event_counterexample:
  "decode (\<lambda>s. Inl SyntaxError)
      (Parsed (JObj [(''event'', JStr ''cache.purged''), (''id'', JStr ''evt_1''),
                     (''timestamp'', JObj [(''toString'', JNull)])]))
     = Inr (JObj [(''event'', JStr ''cache.purged''), (''id'', JStr ''evt_1''),
                  (''timestamp'', JObj [(''toString'', JNull)])]) \<and>
   ''cache.purged'' \<notin> set known_event_types \<and>
   parseWebhook (\<lambda>s. Inl SyntaxError)
      (Parsed (JObj [(''event'', JStr ''cache.purged''), (''id'', JStr ''evt_1''),
                     (''timestamp'', JObj [(''toString'', JNull)])]))
     = Inl TypeError \<and>
   parseWebhook (\<lambda>s. Inl SyntaxError) (Parsed (JObj [(''event'', JStr ''cache.purged'')]))
     = Inr \<lparr>event_id = None,
            event_type = Some (JStr ''cache.purged''),
            event_timestamp = Date None,
            event_data = \<lparr>data_url = None, data_batchId = None, data_response = None,
                           data_error = None\<rparr>\<rparr> \<and>
   \<not> structurally_valid
     \<lparr>event_id = None,
      event_type = Some (JStr ''cache.purged''),
      event_timestamp = Date None,
      event_data = \<lparr>data_url = None, data_batchId = None, data_response = None,
                     data_error = None\<rparr>\<rparr>"
  by (simp add: parseWebhook_def decode_def nullish_def property_def known_event_types_def
      empty_data_def new_Date_def Date_throws_def structurally_valid_def is_string_def)

text \<open>
  C10 (a known event without data). For every payload that decodes to an object whose
  \<^verbatim>\<open>event\<close> field is \<^verbatim>\<open>screenshot.completed\<close> or \<^verbatim>\<open>screenshot.failed\<close> and which has no \<^verbatim>\<open>data\<close>
  field, \<^verbatim>\<open>parseWebhook\<close> throws a \<^verbatim>\<open>TypeError\<close> (the read of a property of the missing
  \<^verbatim>\<open>data\<close>, unless \<^verbatim>\<open>new Date\<close> has thrown one before) and returns no event.
\<close>

theorem parseWebhook_missing_data:
  assumes "decode JSON_parse payload = Inr (JObj props)"
    and "map_of props ''event'' = Some (JStr ''screenshot.completed'')
       \<or> map_of props ''event'' = Some (JStr ''screenshot.failed'')"
    and "map_of props ''data'' = None"
  shows "parseWebhook JSON_parse payload = Inl TypeError"
  using assms
  by (auto simp: parseWebhook_def nullish_def property_def new_Date_def)

theorem parseWebhook_missing_data_witness:
  "decode (\<lambda>s. Inl SyntaxError)
      (Parsed (JObj [(''event'', JStr ''screenshot.completed''), (''id'', JStr ''req_abc123'')]))
     = Inr (JObj [(''event'', JStr ''screenshot.completed''), (''id'', JStr ''req_abc123'')]) \<and>
   map_of [(''event'', JStr ''screenshot.completed''), (''id'', JStr ''req_abc123'')] ''event''
     = Some (JStr ''screenshot.completed'') \<and>
   map_of [(''event'', JStr ''screenshot.completed''), (''id'', JStr ''req_abc123'')] ''data''
     = None \<and>
   parseWebhook (\<lambda>s. Inl SyntaxError)
      (Parsed (JObj [(''event'', JStr ''screenshot.completed''), (''id'', JStr ''req_abc123'')]))
     = Inl TypeError"
  using parseWebhook_missing_data
    [of "\<lambda>s. Inl SyntaxError"
        "Parsed (JObj [(''event'', JStr ''screenshot.completed''), (''id'', JStr ''req_abc123'')])"
        "[(''event'', JStr ''screenshot.completed''), (''id'', JStr ''req_abc123'')]"]
  by (simp add: decode_def)

section \<open>Properties of the string of a Number\<close>

lemma digits_value_append:
  "digits_value (a @ b) = digits_value a * 10 ^ length b + digits_value b"
proof (induction b rule: rev_induct)
  case Nil
  show ?case by (simp add: digits_value_def)
next
  case (snoc c b)
  have "digits_value (a @ b @ [c]) = 10 * digits_value (a @ b) + digit_val c"
    using digits_value_snoc [of "a @ b" c] by simp
  with snoc show ?case
    by (simp add: digits_value_snoc algebra_simps)
qed

lemma digits_value_zeros: "digits_value (replicate m (CHR ''0'')) = 0"
  by (induction m) (simp_all add: digits_value_def digit_val_def)

lemma length_decimal_bounds:
  "0 < n \<Longrightarrow> 10 ^ (length (decimal n) - 1) \<le> n \<and> n < 10 ^ length (decimal n)"
proof (induction n rule: decimal.induct)
  case (1 n)
  show ?case
  proof (cases "n < 10")
    case True
    then have "decimal n = [digit_char n]"
      by (subst decimal.simps) simp
    with True "1.prems" show ?thesis
      by simp
  next
    case False
    then have eq: "decimal n = decimal (n div 10) @ [digit_char (n mod 10)]"
      by (subst decimal.simps) simp
    define L where "L = length (decimal (n div 10))"
    from False have "0 < n div 10"
      by simp
    with "1.IH" False have lo: "10 ^ (L - 1) \<le> n div 10" and hi: "n div 10 < 10 ^ L"
      by (simp_all add: L_def)
    have "0 < L"
      by (simp add: L_def decimal_nonempty)
    then have pow: "(10 :: nat) ^ L = 10 * 10 ^ (L - 1)"
      by (cases L) simp_all
    from lo have "10 * 10 ^ (L - 1) \<le> 10 * (n div 10)"
      by simp
    also have "\<dots> \<le> n"
      by simp
    finally have "10 ^ L \<le> n"
      by (simp only: pow)
    moreover from hi have "n < 10 * 10 ^ L"
      by simp
    ultimately show ?thesis
      by (simp add: eq L_def [symmetric])
  qed
qed

lemma is_digit_distinct:
  assumes "is_digit c"
  shows "c \<noteq> CHR ''e''" and "c \<noteq> CHR ''.''" and "c \<noteq> CHR ''-''" and "c \<noteq> CHR ''+''"
    and "c \<noteq> CHR ''N''" and "c \<noteq> CHR ''I''"
  using assms by (auto simp: is_digit_def)

lemma hd_decimal_digit: "is_digit (hd (decimal n))"
  using decimal_nonempty [of n] decimal_all_digits [of "hd (decimal n)" n] by simp

subsection \<open>Numeric literals\<close>

lemma split_at_absent: "c \<notin> set s \<Longrightarrow> split_at c s = (s, [])"
  by (induction s) (auto simp: split_at_def)

lemma split_at_first: "c \<notin> set a \<Longrightarrow> split_at c (a @ c # b) = (a, b)"
  by (induction a) (auto simp: split_at_def)

lemma literal_value_digits:
  assumes "list_all is_digit a"
  shows "literal_value a = of_nat (digits_value a)"
proof -
  from assms have "CHR ''e'' \<notin> set a" and "CHR ''.'' \<notin> set a"
    by (auto simp: list_all_iff dest: is_digit_distinct)
  then show ?thesis
    by (simp add: literal_value_def split_at_absent exponent_value_def)
qed

lemma literal_value_point:
  assumes "list_all is_digit a" and "list_all is_digit b"
  shows "literal_value (a @ ''.'' @ b) = of_nat (digits_value (a @ b)) * 10 powi (- int (length b))"
proof -
  from assms have "CHR ''e'' \<notin> set (a @ ''.'' @ b)" and "CHR ''.'' \<notin> set a"
    by (auto simp: list_all_iff dest: is_digit_distinct)
  then show ?thesis
    using split_at_first [of "CHR ''.''" a b]
    by (simp add: literal_value_def split_at_absent exponent_value_def)
qed

lemma literal_value_exponent:
  assumes "CHR ''e'' \<notin> set m"
  shows "literal_value (m @ ''e'' @ e) = literal_value m * 10 powi exponent_value e"
proof -
  have "split_at (CHR ''e'') (m @ ''e'' @ e) = (m, e)"
    using split_at_first [OF assms, of e] by simp
  moreover have "split_at (CHR ''e'') m = (m, [])"
    using assms by (rule split_at_absent)
  ultimately show ?thesis
    by (simp add: literal_value_def Let_def power_int_diff power_int_add exponent_value_def)
qed

lemma exponent_value_signed:
  "exponent_value ((if e < 0 then ''-'' else ''+'') @ decimal (nat \<bar>e\<bar>)) = e"
  by (simp add: exponent_value_def digits_value_decimal)

lemma strip_zeros_value: "decimal_value (strip_zeros c) = decimal_value c"
proof (induction c rule: strip_zeros.induct)
  case (1 s z)
  show ?case
  proof (cases "0 < s \<and> s mod 10 = 0")
    case True
    then have s: "s = 10 * (s div 10)"
      by auto
    have "decimal_value (s div 10, z + 1) = decimal_value (s, z)"
      by (subst (2) s) (simp add: decimal_value_def power_int_add)
    with True "1.IH" show ?thesis
      by (subst strip_zeros.simps) simp
  next
    case False
    then show ?thesis
      by (subst strip_zeros.simps) auto
  qed
qed

lemma strip_zeros_positive: "0 < fst c \<Longrightarrow> 0 < fst (strip_zeros c)"
proof (induction c rule: strip_zeros.induct)
  case (1 s z)
  show ?case
  proof (cases "0 < s \<and> s mod 10 = 0")
    case True
    then have "0 < s div 10"
      by auto
    with True "1.IH" show ?thesis
      by (subst strip_zeros.simps) simp
  next
    case False
    with "1.prems" show ?thesis
      by (subst strip_zeros.simps) auto
  qed
qed

lemma format_digits_value:
  assumes "0 < fst c"
  shows "literal_value (format_digits c) = decimal_value c"
proof -
  define s where "s = fst (strip_zeros c)"
  define z where "z = snd (strip_zeros c)"
  define ds where "ds = decimal s"
  define k where "k = int (length ds)"
  define n where "n = z + k"
  have digits: "list_all is_digit ds"
    by (simp add: ds_def list_all_iff decimal_all_digits)
  have val: "digits_value ds = s"
    by (simp add: ds_def digits_value_decimal)
  have nonempty: "ds \<noteq> []"
    by (simp add: ds_def decimal_nonempty)
  have z: "z = n - k"
    by (simp add: n_def)
  have k1: "1 \<le> k"
    using nonempty by (cases ds) (simp_all add: k_def)
  have no_e: "CHR ''e'' \<notin> set ds" and no_point: "CHR ''.'' \<notin> set ds"
    using digits by (auto simp: list_all_iff dest: is_digit_distinct)
  have v: "decimal_value c = of_nat s * 10 powi z"
    using strip_zeros_value [of c] by (simp add: decimal_value_def s_def z_def)
  let ?exp = "(if n - 1 < 0 then ''-'' else ''+'') @ decimal (nat \<bar>n - 1\<bar>)"
  have fmt: "format_digits c =
     (if k \<le> n \<and> n \<le> 21 then ds @ replicate (nat (n - k)) (CHR ''0'')
      else if 0 < n \<and> n \<le> 21 then take (nat n) ds @ ''.'' @ drop (nat n) ds
      else if - 6 < n \<and> n \<le> 0 then ''0.'' @ replicate (nat (- n)) (CHR ''0'') @ ds
      else if k = 1 then ds @ ''e'' @ ?exp
      else (hd ds # ''.'' @ tl ds) @ ''e'' @ ?exp)"
    by (simp add: format_digits_def Let_def s_def z_def ds_def k_def n_def)
  consider (integer) "k \<le> n" "n \<le> 21" | (point) "n < k" "0 < n" "n \<le> 21"
    | (small) "- 6 < n" "n \<le> 0" | (exponent) "n \<le> - 6 \<or> 21 < n"
    by linarith
  then show ?thesis
  proof cases
    case integer
    then have "format_digits c = ds @ replicate (nat (n - k)) (CHR ''0'')"
      by (simp add: fmt)
    moreover have "list_all is_digit (ds @ replicate (nat (n - k)) (CHR ''0''))"
      using digits by (auto simp: list_all_iff is_digit_def)
    ultimately have "literal_value (format_digits c) = of_nat s * 10 ^ nat (n - k)"
      by (simp add: literal_value_digits digits_value_append val digits_value_zeros)
    with integer show ?thesis
      by (simp add: v z power_int_def)
  next
    case point
    then have eq: "format_digits c = take (nat n) ds @ ''.'' @ drop (nat n) ds"
      by (simp add: fmt)
    have "list_all is_digit (take (nat n) ds)" and "list_all is_digit (drop (nat n) ds)"
      using digits by (auto simp: list_all_iff dest: in_set_takeD in_set_dropD)
    then have "literal_value (format_digits c)
        = of_nat (digits_value (take (nat n) ds @ drop (nat n) ds))
            * 10 powi (- int (length (drop (nat n) ds)))"
      unfolding eq by (rule literal_value_point)
    moreover from point have "- int (length (drop (nat n) ds)) = z"
      by (simp add: z k_def)
    ultimately show ?thesis
      by (simp add: v val)
  next
    case small
    with k1 have eq: "format_digits c = ''0'' @ ''.'' @ (replicate (nat (- n)) (CHR ''0'') @ ds)"
      by (simp add: fmt)
    have "list_all is_digit ''0''"
      and "list_all is_digit (replicate (nat (- n)) (CHR ''0'') @ ds)"
      using digits by (auto simp: list_all_iff is_digit_def)
    then have "literal_value (format_digits c)
        = of_nat (digits_value (''0'' @ (replicate (nat (- n)) (CHR ''0'') @ ds)))
            * 10 powi (- int (length (replicate (nat (- n)) (CHR ''0'') @ ds)))"
      unfolding eq by (rule literal_value_point)
    moreover have "digits_value (''0'' @ (replicate (nat (- n)) (CHR ''0'') @ ds)) = s"
    proof -
      have "digits_value (replicate (Suc (nat (- n))) (CHR ''0'') @ ds)
          = digits_value (replicate (Suc (nat (- n))) (CHR ''0'')) * 10 ^ length ds + digits_value ds"
        by (rule digits_value_append)
      then show ?thesis
        by (simp add: digits_value_zeros val del: replicate_Suc) simp
    qed
    moreover from small have "- int (length (replicate (nat (- n)) (CHR ''0'') @ ds)) = z"
      by (simp add: z k_def)
    ultimately show ?thesis
      by (simp add: v)
  next
    case exponent
    have e: "exponent_value ?exp = n - 1"
      by (rule exponent_value_signed)
    show ?thesis
    proof (cases "k = 1")
      case True
      with exponent have "format_digits c = ds @ ''e'' @ ?exp"
        by (auto simp: fmt)
      then have "literal_value (format_digits c) = literal_value ds * 10 powi (n - 1)"
        by (simp only: literal_value_exponent [OF no_e] e)
      with True show ?thesis
        by (simp add: literal_value_digits [OF digits] val v z)
    next
      case False
      with exponent have eq: "format_digits c = (hd ds # ''.'' @ tl ds) @ ''e'' @ ?exp"
        using nonempty by (auto simp: fmt k_def)
      have "CHR ''e'' \<notin> set (hd ds # ''.'' @ tl ds)"
        using no_e nonempty by (cases ds) auto
      then have "literal_value ((hd ds # ''.'' @ tl ds) @ ''e'' @ ?exp)
          = literal_value (hd ds # ''.'' @ tl ds) * 10 powi exponent_value ?exp"
        by (rule literal_value_exponent)
      then have "literal_value (format_digits c)
          = literal_value (hd ds # ''.'' @ tl ds) * 10 powi (n - 1)"
        by (simp only: eq e)
      moreover have "literal_value ([hd ds] @ ''.'' @ tl ds)
          = of_nat (digits_value ([hd ds] @ tl ds)) * 10 powi (- int (length (tl ds)))"
        using digits nonempty by (intro literal_value_point) (cases ds; simp)+
      moreover have "[hd ds] @ tl ds = ds"
        using nonempty by simp
      moreover have "- int (length (tl ds)) = 1 - k"
        using nonempty by (cases ds) (simp_all add: k_def)
      ultimately have "literal_value (format_digits c)
          = of_nat s * 10 powi (1 - k) * 10 powi (n - 1)"
        by (simp add: val)
      also have "\<dots> = of_nat s * 10 powi ((1 - k) + (n - 1))"
        by (subst power_int_add) (simp_all add: mult.assoc)
      finally show ?thesis
        by (simp add: v z)
    qed
  qed
qed

lemma format_digits_digit: "is_digit (hd (format_digits c))"
proof -
  define ds where "ds = decimal (fst (strip_zeros c))"
  have "ds \<noteq> []" and "is_digit (hd ds)"
    by (simp_all add: ds_def decimal_nonempty hd_decimal_digit)
  moreover have "is_digit (CHR ''0'')"
    by (simp add: is_digit_def)
  ultimately show ?thesis
    by (auto simp: format_digits_def Let_def ds_def [symmetric] hd_append)
qed

lemma takeWhile_digits:
  assumes "list_all is_digit a"
  shows "takeWhile is_digit (a @ r) = a @ takeWhile is_digit r"
    and "dropWhile is_digit (a @ r) = dropWhile is_digit r"
  using assms by (simp_all add: list_all_iff)

lemma plain_decimal_digits:
  assumes "a \<noteq> []" and "list_all is_digit a"
  shows "plain_decimal a"
proof -
  from assms have sign: "hd a \<noteq> CHR ''-''"
    by (cases a) (auto dest: is_digit_distinct)
  have tw: "takeWhile is_digit a = a"
    using takeWhile_digits [OF assms(2), of "[]"] by simp
  show ?thesis
    using assms(2) by (simp add: plain_decimal_def sign tw assms(1) list_all_iff)
qed

lemma plain_decimal_point:
  assumes "a \<noteq> []" and "list_all is_digit a" and "b \<noteq> []" and "list_all is_digit b"
  shows "plain_decimal (a @ ''.'' @ b)"
proof -
  from assms have sign: "hd a \<noteq> CHR ''-''"
    by (cases a) (auto dest: is_digit_distinct)
  have point: "\<not> is_digit (CHR ''.'')"
    by (simp add: is_digit_def)
  then have tw: "takeWhile is_digit (a @ CHR ''.'' # b) = a"
    and dw: "dropWhile is_digit (a @ CHR ''.'' # b) = CHR ''.'' # b"
    using takeWhile_digits [OF assms(2), of "''.'' @ b"] by simp_all
  show ?thesis
    by (simp add: plain_decimal_def sign tw dw assms point)
qed

lemma plain_decimal_exponent:
  assumes "a \<noteq> []" and "list_all is_digit a"
  shows "\<not> plain_decimal (a @ ''e'' @ r)"
proof -
  from assms have sign: "hd a \<noteq> CHR ''-''"
    by (cases a) (auto dest: is_digit_distinct)
  have e: "\<not> is_digit (CHR ''e'')"
    by (simp add: is_digit_def)
  then have tw: "takeWhile is_digit (a @ CHR ''e'' # r) = a"
    and dw: "dropWhile is_digit (a @ CHR ''e'' # r) = CHR ''e'' # r"
    using takeWhile_digits [OF assms(2), of "''e'' @ r"] by simp_all
  show ?thesis
    by (simp add: plain_decimal_def sign tw dw assms e)
qed

lemma plain_decimal_point_exponent:
  assumes "is_digit d"
  shows "\<not> plain_decimal ((d # ''.'' @ b) @ ''e'' @ r)"
proof -
  from assms have "d \<noteq> CHR ''-''"
    by (auto dest: is_digit_distinct)
  moreover have "\<not> is_digit (CHR ''.'')" and "\<not> is_digit (CHR ''e'')"
    by (simp_all add: is_digit_def)
  ultimately show ?thesis
    using assms by (simp add: plain_decimal_def list_all_iff)
qed

lemma format_digits_plain:
  "plain_decimal (format_digits c) \<longleftrightarrow>
     - 6 < snd (strip_zeros c) + int (length (decimal (fst (strip_zeros c))))
     \<and> snd (strip_zeros c) + int (length (decimal (fst (strip_zeros c)))) \<le> 21"
proof -
  define ds where "ds = decimal (fst (strip_zeros c))"
  define k where "k = int (length ds)"
  define n where "n = snd (strip_zeros c) + k"
  have digits: "list_all is_digit ds"
    by (simp add: ds_def list_all_iff decimal_all_digits)
  have nonempty: "ds \<noteq> []"
    by (simp add: ds_def decimal_nonempty)
  have first: "is_digit (hd ds)"
    by (simp add: ds_def hd_decimal_digit)
  have k1: "1 \<le> k"
    using nonempty by (cases ds) (simp_all add: k_def)
  have zero: "is_digit (CHR ''0'')"
    by (simp add: is_digit_def)
  let ?exp = "(if n - 1 < 0 then ''-'' else ''+'') @ decimal (nat \<bar>n - 1\<bar>)"
  have fmt: "format_digits c =
     (if k \<le> n \<and> n \<le> 21 then ds @ replicate (nat (n - k)) (CHR ''0'')
      else if 0 < n \<and> n \<le> 21 then take (nat n) ds @ ''.'' @ drop (nat n) ds
      else if - 6 < n \<and> n \<le> 0 then ''0.'' @ replicate (nat (- n)) (CHR ''0'') @ ds
      else if k = 1 then ds @ ''e'' @ ?exp
      else (hd ds # ''.'' @ tl ds) @ ''e'' @ ?exp)"
    by (simp add: format_digits_def Let_def ds_def k_def n_def)
  consider (integer) "k \<le> n" "n \<le> 21" | (point) "n < k" "0 < n" "n \<le> 21"
    | (small) "- 6 < n" "n \<le> 0" | (exponent) "n \<le> - 6 \<or> 21 < n"
    by linarith
  then have "plain_decimal (format_digits c) \<longleftrightarrow> - 6 < n \<and> n \<le> 21"
  proof cases
    case integer
    then have eq: "format_digits c = ds @ replicate (nat (n - k)) (CHR ''0'')"
      by (simp add: fmt)
    have "plain_decimal (ds @ replicate (nat (n - k)) (CHR ''0''))"
      using nonempty digits zero by (intro plain_decimal_digits) (auto simp: list_all_iff)
    with integer k1 show ?thesis
      by (simp add: eq)
  next
    case point
    then have eq: "format_digits c = take (nat n) ds @ ''.'' @ drop (nat n) ds"
      by (simp add: fmt)
    have "list_all is_digit (take (nat n) ds)" and "list_all is_digit (drop (nat n) ds)"
      using digits by (auto simp: list_all_iff dest: in_set_takeD in_set_dropD)
    moreover from point have "take (nat n) ds \<noteq> []" and "drop (nat n) ds \<noteq> []"
      using nonempty by (simp_all add: k_def)
    ultimately have "plain_decimal (take (nat n) ds @ ''.'' @ drop (nat n) ds)"
      by (intro plain_decimal_point)
    with point show ?thesis
      by (simp add: eq)
  next
    case small
    with k1 have eq: "format_digits c = ''0'' @ ''.'' @ (replicate (nat (- n)) (CHR ''0'') @ ds)"
      by (simp add: fmt)
    have "list_all is_digit (replicate (nat (- n)) (CHR ''0'') @ ds)"
      using digits zero by (auto simp: list_all_iff)
    with zero nonempty have "plain_decimal (''0'' @ ''.'' @ (replicate (nat (- n)) (CHR ''0'') @ ds))"
      by (intro plain_decimal_point) simp_all
    with small show ?thesis
      by (simp add: eq)
  next
    case exponent
    have "\<not> plain_decimal (format_digits c)"
    proof (cases "k = 1")
      case True
      with exponent have eq: "format_digits c = ds @ ''e'' @ ?exp"
        by (auto simp: fmt)
      show ?thesis
        unfolding eq using nonempty digits by (rule plain_decimal_exponent)
    next
      case False
      with exponent have eq: "format_digits c = (hd ds # ''.'' @ tl ds) @ ''e'' @ ?exp"
        using nonempty by (auto simp: fmt k_def)
      show ?thesis
        unfolding eq using first by (rule plain_decimal_point_exponent)
    qed
    with exponent show ?thesis
      by auto
  qed
  then show ?thesis
    by (simp add: n_def k_def ds_def)
qed

subsection \<open>The digit search\<close>

lemma Number_grid:
  assumes "to_double x = Some x"
  shows "\<exists>m :: int. x = of_int m * 2 powi (max (binary_exponent x) (- 1022) - 52)"
proof -
  define u :: rat where "u = 2 powi (max (binary_exponent x) (- 1022) - 52)"
  from assms have "of_int (round_half_even (x / u)) * u = x"
    by (simp add: to_double_def Let_def u_def split: if_splits)
  then have "x = of_int (round_half_even (x / u)) * u"
    by simp
  then show ?thesis
    unfolding u_def by (rule exI)
qed

lemma Number_scaled:
  assumes "to_double x = Some x" and "max 0 (52 - max (binary_exponent x) (- 1022)) \<le> j"
  shows "x * 2 powi j \<in> \<int>"
proof -
  define E where "E = max (binary_exponent x) (- 1022)"
  from Number_grid [OF assms(1)] obtain m :: int where x: "x = of_int m * 2 powi (E - 52)"
    unfolding E_def ..
  from assms(2) have nonneg: "0 \<le> E - 52 + j"
    by (simp add: E_def)
  have "(2 :: rat) powi (E - 52) * 2 powi j = 2 powi (E - 52 + j)"
    by (subst power_int_add) simp_all
  also have "\<dots> = 2 ^ nat (E - 52 + j)"
    using nonneg by (simp add: power_int_def)
  finally have "x * 2 powi j = of_int m * 2 ^ nat (E - 52 + j)"
    by (simp add: x mult.assoc)
  then show ?thesis
    by simp
qed

lemma exact_candidate:
  assumes "0 < x" and "to_double x = Some x"
  shows "rounds_to x (hd (digit_candidates x (digits_bound x)))"
proof -
  define z where "z = decimal_exponent x - int (digits_bound x)"
  define J where "J = max 0 (52 - max (binary_exponent x) (- 1022))"
  have "int (digits_bound x) = max 1 (decimal_exponent x + J)"
    by (simp add: digits_bound_def J_def)
  then have J: "J \<le> - z"
    by (simp add: z_def)
  have "0 \<le> J"
    by (simp add: J_def)
  from J have a: "x * 2 powi (- z) \<in> \<int>"
    using Number_scaled [OF assms(2), of "- z"] by (simp add: J_def)
  from J \<open>0 \<le> J\<close> have "0 \<le> - z"
    by linarith
  then have b: "(5 :: rat) powi (- z) \<in> \<int>"
    by (simp add: power_int_def)
  have "(10 :: rat) powi (- z) = 2 powi (- z) * 5 powi (- z)"
    using power_int_mult_distrib [of "2 :: rat" 5 "- z"] by simp
  moreover have "x / 10 powi z = x * 10 powi (- z)"
    by (simp add: power_int_minus field_simps)
  ultimately have "x / 10 powi z = (x * 2 powi (- z)) * 5 powi (- z)"
    by (simp add: mult.assoc)
  with a b have "x / 10 powi z \<in> \<int>"
    by (simp del: power_int_minus_mult)
  then obtain i :: int where i: "x / 10 powi z = of_int i"
    by (auto elim: Ints_cases)
  from assms(1) have "0 < x / 10 powi z"
    by simp
  with i have "0 < i"
    by simp
  then have "of_nat (nat \<lfloor>x / 10 powi z\<rfloor>) = x / 10 powi z"
    by (simp add: i)
  then have "decimal_value (nat \<lfloor>x / 10 powi z\<rfloor>, z) = x"
    by (simp add: decimal_value_def)
  with assms(2) show ?thesis
    by (simp add: rounds_to_def digit_candidates_def Let_def z_def)
qed

lemma find_SomeD: "find P xs = Some k \<Longrightarrow> k \<in> set xs \<and> P k"
  by (induction xs) (auto split: if_splits)

lemma closer_cases: "closer x a b = a \<or> closer x a b = b"
  by (simp add: closer_def Let_def)

lemma shortest_digits_found:
  assumes "0 < x" and "to_double x = Some x"
  obtains k where "1 \<le> k" and "shortest_digits x \<in> set (digit_candidates x k)"
    and "rounds_to x (shortest_digits x)"
proof -
  let ?P = "\<lambda>k. list_ex (rounds_to x) (digit_candidates x k)"
  define ks where "ks = [1 ..< Suc (digits_bound x)]"
  have "1 \<le> digits_bound x"
    by (simp add: digits_bound_def)
  then have "digits_bound x \<in> set ks"
    by (simp add: ks_def)
  moreover have "?P (digits_bound x)"
    using exact_candidate [OF assms]
    by (auto simp: list_ex_iff digit_candidates_def Let_def)
  ultimately have "find ?P ks \<noteq> None"
    unfolding find_None_iff by blast
  then obtain k where found: "find ?P ks = Some k"
    by auto
  from find_SomeD [OF this] have "k \<in> set ks" and P: "?P k"
    by simp_all
  then have k: "1 \<le> k"
    by (auto simp: ks_def)
  define fs where "fs = filter (rounds_to x) (digit_candidates x k)"
  from P have "fs \<noteq> []"
    by (simp add: fs_def filter_empty_conv list_ex_iff)
  have result: "shortest_digits x = (case fs of [a, b] \<Rightarrow> closer x a b | a # _ \<Rightarrow> a | [] \<Rightarrow> (0, 0))"
    unfolding shortest_digits_def ks_def [symmetric] found fs_def by simp
  have "shortest_digits x \<in> set fs"
  proof (cases fs)
    case Nil
    with \<open>fs \<noteq> []\<close> show ?thesis by simp
  next
    case (Cons a as)
    show ?thesis
    proof (cases as)
      case Nil
      with Cons show ?thesis
        by (simp add: result)
    next
      case as: (Cons b bs)
      show ?thesis
        using closer_cases [of x a b]
        by (cases bs) (auto simp: result Cons as)
    qed
  qed
  then have "shortest_digits x \<in> set (digit_candidates x k)" and "rounds_to x (shortest_digits x)"
    by (simp_all add: fs_def)
  with k show ?thesis
    by (rule that)
qed

subsection \<open>Decimal exponents\<close>

lemma powi_exponent_less:
  fixes b :: rat
  assumes "1 < b" and "b powi a \<le> v" and "v < b powi c"
  shows "a < c"
proof (rule ccontr)
  assume "\<not> a < c"
  with assms(1) have "b powi c \<le> b powi a"
    by (intro power_int_increasing) simp_all
  with assms(2,3) show False
    by simp
qed

lemma powi_interval_unique:
  fixes b :: rat
  assumes "1 < b" and "b powi (a - 1) \<le> v" and "v < b powi a"
    and "b powi (c - 1) \<le> v" and "v < b powi c"
  shows "a = c"
  using powi_exponent_less [OF assms(1,2,5)] powi_exponent_less [OF assms(1,4,3)] by simp

lemma decimal_exponent_bounds:
  assumes "0 < x"
  shows "10 powi (decimal_exponent x - 1) \<le> x" and "x < 10 powi decimal_exponent x"
proof -
  have "10 powi (decimal_exponent x - 1) \<le> x \<and> x < 10 powi decimal_exponent x"
  proof (cases "1 \<le> x")
    case True
    define N where "N = nat \<lfloor>x\<rfloor>"
    define L where "L = length (decimal N)"
    from True have "1 \<le> \<lfloor>x\<rfloor>"
      by simp
    then have N: "0 < N" and int_N: "int N = \<lfloor>x\<rfloor>"
      by (simp_all add: N_def)
    from length_decimal_bounds [OF N] have lo: "10 ^ (L - 1) \<le> N" and hi: "N < 10 ^ L"
      by (simp_all add: L_def)
    have "0 < L"
      by (simp add: L_def decimal_nonempty)
    then have exp: "int L - 1 = int (L - 1)"
      by simp
    have "of_int (int N) \<le> x" and "x < of_int (int N) + 1"
      unfolding int_N by (simp_all add: floor_less_cancel)
    then have below: "rat_of_nat N \<le> x" and above: "x < rat_of_nat (N + 1)"
      by simp_all
    from lo have "rat_of_nat (10 ^ (L - 1)) \<le> rat_of_nat N"
      by (rule of_nat_mono)
    also note below
    finally have "10 ^ (L - 1) \<le> x"
      by simp
    moreover from hi have "N + 1 \<le> 10 ^ L"
      by simp
    then have "rat_of_nat (N + 1) \<le> rat_of_nat (10 ^ L)"
      by (rule of_nat_mono)
    with above have "x < rat_of_nat (10 ^ L)"
      by (rule less_le_trans)
    then have "x < 10 ^ L"
      by simp
    moreover from True have "decimal_exponent x = int L"
      by (simp add: decimal_exponent_def L_def N_def)
    ultimately show ?thesis
      by (simp add: exp)
  next
    case False
    define y where "y = 1 / x"
    define N where "N = nat \<lfloor>y\<rfloor>"
    define d where "d = length (decimal N)"
    from False assms have "1 < y"
      by (simp add: y_def)
    then have "1 \<le> \<lfloor>y\<rfloor>"
      by simp
    then have N: "0 < N" and int_N: "int N = \<lfloor>y\<rfloor>"
      by (simp_all add: N_def)
    from length_decimal_bounds [OF N] have lo: "10 ^ (d - 1) \<le> N" and hi: "N < 10 ^ d"
      by (simp_all add: d_def)
    have "0 < d"
      by (simp add: d_def decimal_nonempty)
    then have d: "1 - int d = - int (d - 1)"
      by simp
    have "of_int (int N) \<le> y" and "y < of_int (int N) + 1"
      unfolding int_N by (simp_all add: floor_less_cancel)
    then have below: "rat_of_nat N \<le> y" and above: "y < rat_of_nat (N + 1)"
      by simp_all
    from lo have "rat_of_nat (10 ^ (d - 1)) \<le> rat_of_nat N"
      by (rule of_nat_mono)
    also note below
    finally have "10 ^ (d - 1) \<le> y"
      by simp
    then have "10 ^ (d - 1) * x \<le> 1"
      using assms by (simp add: y_def field_simps)
    then have upper: "x \<le> 10 powi (1 - int d)"
      unfolding d by (simp add: power_int_minus field_simps)
    from hi have "N + 1 \<le> 10 ^ d"
      by simp
    then have "rat_of_nat (N + 1) \<le> rat_of_nat (10 ^ d)"
      by (rule of_nat_mono)
    with above have "y < rat_of_nat (10 ^ d)"
      by (rule less_le_trans)
    then have "y < 10 ^ d"
      by simp
    then have "1 < 10 ^ d * x"
      using assms by (simp add: y_def field_simps)
    then have lower: "10 powi (- int d) < x"
      by (simp add: power_int_minus field_simps)
    have de: "decimal_exponent x = (if x = 10 powi (1 - int d) then 2 - int d else 1 - int d)"
      using False by (simp add: decimal_exponent_def Let_def d_def N_def y_def)
    show ?thesis
    proof (cases "x = 10 powi (1 - int d)")
      case True
      have n: "decimal_exponent x = 2 - int d"
        unfolding de using True by (rule if_P)
      have "(10 :: rat) powi (1 - int d) < 10 powi (2 - int d)"
        by (intro power_int_strict_increasing) simp_all
      then show ?thesis
        unfolding n using True by simp
    next
      case neq: False
      have n: "decimal_exponent x = 1 - int d"
        unfolding de using neq by (rule if_not_P)
      from neq upper lower show ?thesis
        unfolding n by simp
    qed
  qed
  then show "10 powi (decimal_exponent x - 1) \<le> x" and "x < 10 powi decimal_exponent x"
    by simp_all
qed

lemma digit_candidates_bounds:
  assumes "0 < x" and "1 \<le> k" and "c \<in> set (digit_candidates x k)"
  shows "0 < fst c" and "10 powi (decimal_exponent x - 1) \<le> decimal_value c"
    and "decimal_value c \<le> 10 powi decimal_exponent x"
proof -
  define n where "n = decimal_exponent x"
  define z where "z = n - int k"
  define y where "y = x / 10 powi z"
  define lo where "lo = nat \<lfloor>y\<rfloor>"
  have pos: "(0 :: rat) < 10 powi z"
    by simp
  from assms(3) have c: "c = (lo, z) \<or> c = (lo + 1, z)"
    by (auto simp: digit_candidates_def Let_def lo_def y_def z_def n_def)
  have x: "x = y * 10 powi z"
    by (simp add: y_def)
  from assms(2) have k: "int k - 1 = int (k - 1)"
    by simp
  have "(10 :: rat) powi (n - 1) = 10 powi (int k - 1) * 10 powi z"
    by (subst power_int_add [symmetric]) (simp_all add: z_def)
  then have low: "(10 :: rat) powi (n - 1) = 10 ^ (k - 1) * 10 powi z"
    by (simp add: k)
  have "(10 :: rat) powi n = 10 powi (int k) * 10 powi z"
    by (subst power_int_add [symmetric]) (simp_all add: z_def)
  then have high: "(10 :: rat) powi n = 10 ^ k * 10 powi z"
    by simp
  from decimal_exponent_bounds [OF assms(1)] have "10 ^ (k - 1) * 10 powi z \<le> y * 10 powi z"
    and "y * 10 powi z < 10 ^ k * 10 powi z"
    by (simp_all only: low [symmetric] high [symmetric] x [symmetric] n_def)
  with pos have y_lo: "10 ^ (k - 1) \<le> y" and y_hi: "y < 10 ^ k"
    by simp_all
  have "rat_of_int (10 ^ (k - 1)) \<le> y"
    using y_lo by simp
  then have "10 ^ (k - 1) \<le> \<lfloor>y\<rfloor>"
    by (simp only: le_floor_iff)
  moreover have "y < rat_of_int (10 ^ k)"
    using y_hi by simp
  then have "\<lfloor>y\<rfloor> < 10 ^ k"
    by (simp only: floor_less_iff)
  moreover have "(0 :: int) \<le> 10 ^ (k - 1)"
    by simp
  ultimately have "0 \<le> \<lfloor>y\<rfloor>" and "10 ^ (k - 1) \<le> \<lfloor>y\<rfloor>" and "\<lfloor>y\<rfloor> < 10 ^ k"
    by linarith+
  then have lo_lo: "10 ^ (k - 1) \<le> int lo" and lo_hi: "int lo < 10 ^ k"
    by (simp_all add: lo_def)
  from lo_lo have "0 < int lo"
    by (rule less_le_trans [rotated]) simp
  with c show "0 < fst c"
    by auto
  have "rat_of_int (10 ^ (k - 1)) \<le> rat_of_int (int lo)"
    using lo_lo by (simp only: of_int_le_iff)
  then have r_lo: "10 ^ (k - 1) \<le> rat_of_nat lo"
    by simp
  from lo_hi have "int lo + 1 \<le> 10 ^ k"
    by linarith
  then have "rat_of_int (int lo + 1) \<le> rat_of_int (10 ^ k)"
    by (simp only: of_int_le_iff)
  then have r_hi: "rat_of_nat lo + 1 \<le> 10 ^ k"
    by simp
  from c show "10 powi (decimal_exponent x - 1) \<le> decimal_value c"
  proof
    assume "c = (lo, z)"
    with r_lo pos show ?thesis
      by (simp add: decimal_value_def n_def [symmetric] low)
  next
    assume "c = (lo + 1, z)"
    moreover from r_lo have "10 ^ (k - 1) \<le> rat_of_nat lo + 1"
      by linarith
    ultimately show ?thesis
      using pos by (simp add: decimal_value_def n_def [symmetric] low)
  qed
  from c show "decimal_value c \<le> 10 powi decimal_exponent x"
  proof
    assume "c = (lo, z)"
    moreover from r_hi have "rat_of_nat lo \<le> 10 ^ k"
      by linarith
    ultimately show ?thesis
      using pos by (simp add: decimal_value_def n_def [symmetric] high)
  next
    assume "c = (lo + 1, z)"
    with r_hi pos show ?thesis
      by (simp add: decimal_value_def n_def [symmetric] high)
  qed
qed

lemma point_position_bounds:
  assumes "0 < fst c"
  shows "10 powi (point_position c - 1) \<le> decimal_value c"
    and "decimal_value c < 10 powi point_position c"
proof -
  define s where "s = fst (strip_zeros c)"
  define z where "z = snd (strip_zeros c)"
  define L where "L = length (decimal s)"
  have s: "0 < s"
    using strip_zeros_positive [OF assms] by (simp add: s_def)
  from length_decimal_bounds [OF s] have lo: "10 ^ (L - 1) \<le> s" and hi: "s < 10 ^ L"
    by (simp_all add: L_def)
  have "0 < L"
    by (simp add: L_def decimal_nonempty)
  then have L: "int L - 1 = int (L - 1)"
    by simp
  have v: "decimal_value c = of_nat s * 10 powi z"
    using strip_zeros_value [of c] by (simp add: decimal_value_def s_def z_def)
  have n: "point_position c = z + int L"
    by (simp add: point_position_def s_def z_def L_def)
  have pos: "(0 :: rat) < 10 powi z"
    by simp
  have "(10 :: rat) powi (z + int L - 1) = 10 powi (int L - 1) * 10 powi z"
    by (subst power_int_add [symmetric]) (simp_all add: algebra_simps)
  then have low: "(10 :: rat) powi (z + int L - 1) = 10 ^ (L - 1) * 10 powi z"
    by (simp add: L)
  have "(10 :: rat) powi (z + int L) = 10 powi (int L) * 10 powi z"
    by (subst power_int_add [symmetric]) (simp_all add: algebra_simps)
  then have high: "(10 :: rat) powi (z + int L) = 10 ^ L * 10 powi z"
    by simp
  from lo have "rat_of_nat (10 ^ (L - 1)) \<le> rat_of_nat s"
    by (rule of_nat_mono)
  then have "10 ^ (L - 1) * 10 powi z \<le> rat_of_nat s * 10 powi z"
    using pos by simp
  then show "10 powi (point_position c - 1) \<le> decimal_value c"
    by (simp only: v n low)
  from hi have "rat_of_nat s < rat_of_nat (10 ^ L)"
    by (simp only: of_nat_less_iff)
  then have "rat_of_nat s * 10 powi z < 10 ^ L * 10 powi z"
    using pos by simp
  then show "decimal_value c < 10 powi point_position c"
    by (simp only: v n high)
qed

lemma decimal_exponent_unique:
  assumes "10 powi (n - 1) \<le> x" and "x < 10 powi n"
  shows "decimal_exponent x = n"
proof -
  have "(0 :: rat) < 10 powi (n - 1)"
    by simp
  then have "0 < x"
    using assms(1) by (rule less_le_trans)
  from decimal_exponent_bounds [OF this] assms show ?thesis
    by (intro powi_interval_unique [of 10 _ x]) simp_all
qed

subsection \<open>Binary exponents and rounding\<close>

lemma bit_length_bounds:
  "0 < n \<Longrightarrow> 2 ^ (bit_length n - 1) \<le> n \<and> n < 2 ^ bit_length n"
proof (induction n rule: bit_length.induct)
  case (1 n)
  show ?case
  proof (cases "n div 2 = 0")
    case True
    with "1.prems" have "n = 1"
      by (simp add: div_eq_0_iff)
    then show ?thesis
      by (simp add: bit_length.simps)
  next
    case False
    define L where "L = bit_length (n div 2)"
    from False "1.prems" have eq: "bit_length n = Suc L"
      by (subst bit_length.simps) (simp add: L_def)
    from False "1.IH" "1.prems" have lo: "2 ^ (L - 1) \<le> n div 2" and hi: "n div 2 < 2 ^ L"
      by (simp_all add: L_def)
    from False have "0 < L"
      unfolding L_def by (subst bit_length.simps) simp
    then have pow: "(2 :: nat) ^ L = 2 * 2 ^ (L - 1)"
      by (cases L) simp_all
    from lo have "2 * 2 ^ (L - 1) \<le> 2 * (n div 2)"
      by simp
    also have "\<dots> \<le> n"
      by simp
    finally have "2 ^ L \<le> n"
      by (simp only: pow)
    moreover from hi have "n < 2 * 2 ^ L"
      by simp
    ultimately show ?thesis
      by (simp add: eq)
  qed
qed

lemma bit_length_positive: "0 < n \<Longrightarrow> 0 < bit_length n"
  by (subst bit_length.simps) simp

lemma binary_exponent_bounds:
  assumes "0 < x"
  shows "2 powi binary_exponent x \<le> x" and "x < 2 powi (binary_exponent x + 1)"
proof -
  have "2 powi binary_exponent x \<le> x \<and> x < 2 powi (binary_exponent x + 1)"
  proof (cases "1 \<le> x")
    case True
    define N where "N = nat \<lfloor>x\<rfloor>"
    define L where "L = bit_length N"
    from True have "1 \<le> \<lfloor>x\<rfloor>"
      by simp
    then have N: "0 < N" and int_N: "int N = \<lfloor>x\<rfloor>"
      by (simp_all add: N_def)
    from bit_length_bounds [OF N] have lo: "2 ^ (L - 1) \<le> N" and hi: "N < 2 ^ L"
      by (simp_all add: L_def)
    have "0 < L"
      using N by (simp add: L_def bit_length_positive)
    then have exp: "int L - 1 = int (L - 1)"
      by simp
    have "of_int (int N) \<le> x" and "x < of_int (int N) + 1"
      unfolding int_N by (simp_all add: floor_less_cancel)
    then have below: "rat_of_nat N \<le> x" and above: "x < rat_of_nat (N + 1)"
      by simp_all
    from lo have "rat_of_nat (2 ^ (L - 1)) \<le> rat_of_nat N"
      by (rule of_nat_mono)
    also note below
    finally have "2 ^ (L - 1) \<le> x"
      by simp
    moreover from hi have "N + 1 \<le> 2 ^ L"
      by simp
    then have "rat_of_nat (N + 1) \<le> rat_of_nat (2 ^ L)"
      by (rule of_nat_mono)
    with above have "x < rat_of_nat (2 ^ L)"
      by (rule less_le_trans)
    then have "x < 2 ^ L"
      by simp
    moreover from True have "binary_exponent x = int L - 1"
      by (simp add: binary_exponent_def L_def N_def)
    moreover have "(2 :: rat) powi (int L - 1) = 2 ^ (L - 1)"
      by (simp add: exp)
    moreover have "(2 :: rat) powi (int L - 1 + 1) = 2 ^ L"
      by simp
    ultimately show ?thesis
      by (simp only:)
  next
    case False
    define y where "y = 1 / x"
    define N where "N = nat \<lfloor>y\<rfloor>"
    define b where "b = bit_length N"
    from False assms have "1 < y"
      by (simp add: y_def)
    then have "1 \<le> \<lfloor>y\<rfloor>"
      by simp
    then have N: "0 < N" and int_N: "int N = \<lfloor>y\<rfloor>"
      by (simp_all add: N_def)
    from bit_length_bounds [OF N] have lo: "2 ^ (b - 1) \<le> N" and hi: "N < 2 ^ b"
      by (simp_all add: b_def)
    have "0 < b"
      using N by (simp add: b_def bit_length_positive)
    then have b: "1 - int b = - int (b - 1)"
      by simp
    have "of_int (int N) \<le> y" and "y < of_int (int N) + 1"
      unfolding int_N by (simp_all add: floor_less_cancel)
    then have below: "rat_of_nat N \<le> y" and above: "y < rat_of_nat (N + 1)"
      by simp_all
    from lo have "rat_of_nat (2 ^ (b - 1)) \<le> rat_of_nat N"
      by (rule of_nat_mono)
    also note below
    finally have "2 ^ (b - 1) \<le> y"
      by simp
    then have "2 ^ (b - 1) * x \<le> 1"
      using assms by (simp add: y_def field_simps)
    then have upper: "x \<le> 2 powi (1 - int b)"
      unfolding b by (simp add: power_int_minus field_simps)
    from hi have "N + 1 \<le> 2 ^ b"
      by simp
    then have "rat_of_nat (N + 1) \<le> rat_of_nat (2 ^ b)"
      by (rule of_nat_mono)
    with above have "y < rat_of_nat (2 ^ b)"
      by (rule less_le_trans)
    then have "y < 2 ^ b"
      by simp
    then have "1 < 2 ^ b * x"
      using assms by (simp add: y_def field_simps)
    then have lower: "2 powi (- int b) < x"
      by (simp add: power_int_minus field_simps)
    have be: "binary_exponent x = (if x = 2 powi (1 - int b) then 1 - int b else - int b)"
      using False by (simp add: binary_exponent_def Let_def b_def N_def y_def)
    show ?thesis
    proof (cases "x = 2 powi (1 - int b)")
      case True
      have n: "binary_exponent x = 1 - int b"
        unfolding be using True by (rule if_P)
      have "(2 :: rat) powi (1 - int b) < 2 powi (1 - int b + 1)"
        by (intro power_int_strict_increasing) simp_all
      then show ?thesis
        unfolding n using True by simp
    next
      case neq: False
      have n: "binary_exponent x = - int b"
        unfolding be using neq by (rule if_not_P)
      from neq upper lower show ?thesis
        unfolding n by (simp add: add.commute)
    qed
  qed
  then show "2 powi binary_exponent x \<le> x" and "x < 2 powi (binary_exponent x + 1)"
    by simp_all
qed

lemma binary_exponent_unique:
  assumes "2 powi e \<le> x" and "x < 2 powi (e + 1)"
  shows "binary_exponent x = e"
proof -
  have "(0 :: rat) < 2 powi e"
    by simp
  then have "0 < x"
    using assms(1) by (rule less_le_trans)
  from binary_exponent_bounds [OF this] assms
  have "binary_exponent x + 1 = e + 1"
    by (intro powi_interval_unique [of 2 _ x]) simp_all
  then show ?thesis
    by simp
qed

lemma round_half_even_unique:
  assumes "\<bar>y - of_int m\<bar> < 1 / 2"
  shows "round_half_even y = m"
proof (cases "of_int m \<le> y")
  case True
  with assms have "\<lfloor>y\<rfloor> = m"
    by (intro floor_unique) linarith+
  with assms True show ?thesis
    by (simp add: round_half_even_def Let_def)
next
  case False
  with assms have "\<lfloor>y\<rfloor> = m - 1"
    by (intro floor_unique) (simp, linarith)+
  with assms False show ?thesis
    by (simp add: round_half_even_def Let_def)
qed

lemma to_double_nearest:
  assumes "2 powi e \<le> q" and "q < 2 powi (e + 1)"
    and "\<bar>q / 2 powi (max e (- 1022) - 52) - of_int m\<bar> < 1 / 2"
    and "of_int m * 2 powi (max e (- 1022) - 52) < (2 :: rat) ^ 1024"
  shows "to_double q = Some (of_int m * 2 powi (max e (- 1022) - 52))"
proof -
  have e: "binary_exponent q = e"
    using assms(1,2) by (rule binary_exponent_unique)
  have "round_half_even (q / 2 powi (max e (- 1022) - 52)) = m"
    using assms(3) by (rule round_half_even_unique)
  with assms(4) show ?thesis
    by (simp add: to_double_def e Let_def)
qed

subsection \<open>Evaluating the digit search\<close>

lemma digit_candidates_unique:
  assumes "10 powi (n - 1) \<le> x" and "x < 10 powi n"
    and "of_nat lo \<le> x / 10 powi (n - int k)" and "x / 10 powi (n - int k) < of_nat lo + 1"
  shows "digit_candidates x k = [(lo, n - int k), (lo + 1, n - int k)]"
proof -
  have n: "decimal_exponent x = n"
    using assms(1,2) by (rule decimal_exponent_unique)
  have "\<lfloor>x / 10 powi (n - int k)\<rfloor> = int lo"
    using assms(3,4) by (intro floor_unique) simp_all
  then show ?thesis
    by (simp add: digit_candidates_def n Let_def)
qed

lemma find_upt:
  assumes "a \<le> k" and "k < b" and "P k" and "\<And>j. a \<le> j \<Longrightarrow> j < k \<Longrightarrow> \<not> P j"
  shows "find P [a ..< b] = Some k"
  using assms
proof (induction "k - a" arbitrary: a)
  case 0
  then have "a = k"
    by simp
  with "0.prems" show ?case
    by (simp add: upt_conv_Cons)
next
  case (Suc d)
  then have less: "a < k"
    by simp
  with Suc.prems have "\<not> P a" and "a < b"
    by simp_all
  then have "find P [a ..< b] = find P [Suc a ..< b]"
    by (simp add: upt_conv_Cons)
  also have "\<dots> = Some k"
  proof (rule Suc.hyps(1))
    show "d = k - Suc a"
      using Suc.hyps(2) by simp
    show "Suc a \<le> k"
      using less by simp
    show "k < b" and "P k"
      by (rule Suc.prems)+
    show "\<not> P j" if "Suc a \<le> j" and "j < k" for j
      using that by (intro Suc.prems(4)) simp_all
  qed
  finally show ?case .
qed

lemma shortest_digits_unique:
  assumes "1 \<le> k" and "k \<le> digits_bound x"
    and "\<And>j. 1 \<le> j \<Longrightarrow> j < k \<Longrightarrow> \<not> list_ex (rounds_to x) (digit_candidates x j)"
    and "filter (rounds_to x) (digit_candidates x k) = [c]"
  shows "shortest_digits x = c"
proof -
  have "c \<in> set (filter (rounds_to x) (digit_candidates x k))"
    by (simp add: assms(4))
  then have "list_ex (rounds_to x) (digit_candidates x k)"
    by (auto simp: list_ex_iff)
  with assms(1-3)
  have "find (\<lambda>k. list_ex (rounds_to x) (digit_candidates x k)) [1 ..< Suc (digits_bound x)] = Some k"
    by (intro find_upt) simp_all
  then show ?thesis
    by (simp add: shortest_digits_def assms(4))
qed

lemma floor_rat_numeral: "\<lfloor>numeral a / numeral b :: rat\<rfloor> = numeral a div numeral b"
  by (metis floor_divide_of_int_eq of_int_numeral)

subsection \<open>Safe integers are Numbers\<close>

lemma integer_is_double:
  assumes "0 < n" and "n < 2 ^ 53"
  shows "to_double (of_int n) = Some (of_int n)"
proof -
  define x :: rat where "x = of_int n"
  define e where "e = binary_exponent x"
  from assms have pos: "0 < x" and one: "2 powi 0 \<le> x" and less: "x < 2 powi 53"
    by (simp_all add: x_def)
  from binary_exponent_bounds [OF pos] have b: "2 powi e \<le> x" "x < 2 powi (e + 1)"
    by (simp_all add: e_def)
  from b(1) less have "e < 53"
    by (intro powi_exponent_less [of 2 e x 53]) simp_all
  moreover from one b(2) have "0 < e + 1"
    by (intro powi_exponent_less [of 2 0 x "e + 1"]) simp_all
  ultimately have e: "max e (- 1022) = e" and shift: "0 \<le> 52 - e"
    by simp_all
  define m where "m = n * 2 ^ nat (52 - e)"
  have "(2 :: rat) powi (e - 52) * 2 powi (52 - e) = 2 powi (e - 52 + (52 - e))"
    by (subst power_int_add) simp_all
  then have inv: "(2 :: rat) powi (e - 52) * 2 powi (52 - e) = 1"
    by simp
  have power: "(2 :: rat) powi (52 - e) = 2 ^ nat (52 - e)"
    using shift by (simp add: power_int_def)
  have m: "rat_of_int m = x * 2 powi (52 - e)"
    by (simp add: m_def x_def power)
  have "x / 2 powi (e - 52) = x * 2 powi (52 - e)"
    using inv by (simp add: field_simps)
  then have near: "\<bar>x / 2 powi (max e (- 1022) - 52) - of_int m\<bar> < 1 / 2"
    by (simp add: e m)
  have exact: "of_int m * 2 powi (max e (- 1022) - 52) = x"
    using inv by (simp add: e m mult.assoc mult.commute)
  have "(2 :: rat) ^ 53 \<le> 2 ^ 1024"
    by (intro power_increasing) simp_all
  with less have "x < 2 ^ 1024"
    by simp
  with to_double_nearest [OF b near] exact show ?thesis
    by (simp add: x_def)
qed

lemma safe_integer_Number: "\<bar>n\<bar> < 2 ^ 53 \<Longrightarrow> is_Number (Finite (of_int n))"
  using integer_is_double [of "\<bar>n\<bar>"] by (cases "n = 0") simp_all

subsection \<open>Particular Numbers\<close>

lemma to_double_zero: "to_double 0 = Some 0"
  by (simp add: to_double_def binary_exponent_def bit_length.simps round_half_even_def)

lemma to_double_sextillion: "to_double 1000000000000000000000 = Some 1000000000000000000000"
  using to_double_nearest [of 69 1000000000000000000000 7629394531250000] by simp

lemma to_double_two_sextillion: "to_double 2000000000000000000000 = Some 2000000000000000000000"
  using to_double_nearest [of 70 2000000000000000000000 7629394531250000] by simp

lemma to_double_millionth: "to_double (1 / 1000000) = Some one_millionth"
  using to_double_nearest [of "- 20" "1 / 1000000" 4722366482869645]
  by (simp add: one_millionth_def)

lemma to_double_nine: "to_double (9 / 10000000) = Some (8500259669165361 / 2 ^ 73)"
  using to_double_nearest [of "- 21" "9 / 10000000" 8500259669165361] by simp

lemma candidates_millionth: "digit_candidates one_millionth 1 = [(9, - 7), (10, - 7)]"
  using digit_candidates_unique [of "- 6" one_millionth 9 1]
  by (simp add: one_millionth_def)

lemma shortest_digits_millionth: "shortest_digits one_millionth = (10, - 7)"
proof (rule shortest_digits_unique [where k = 1])
  have "\<not> rounds_to one_millionth (9, - 7)" and "rounds_to one_millionth (10, - 7)"
    using to_double_nine to_double_millionth
    by (simp_all add: rounds_to_def decimal_value_def one_millionth_def)
  then show "filter (rounds_to one_millionth) (digit_candidates one_millionth 1) = [(10, - 7)]"
    unfolding candidates_millionth by simp
  show "1 \<le> digits_bound one_millionth"
    by (simp add: digits_bound_def)
qed simp_all

lemma point_position_millionth: "point_position (10, - 7) = - 5"
proof -
  have "strip_zeros (10, - 7) = (1, - 6)"
    by (simp add: strip_zeros.simps)
  then show ?thesis
    by (simp add: point_position_def decimal.simps)
qed

lemma candidates_sextillion:
  "digit_candidates 1000000000000000000000 1 = [(1, 21), (2, 21)]"
  using digit_candidates_unique [of 22 1000000000000000000000 1 1] by simp

lemma shortest_digits_sextillion: "shortest_digits 1000000000000000000000 = (1, 21)"
proof (rule shortest_digits_unique [where k = 1])
  have "rounds_to 1000000000000000000000 (1, 21)" and "\<not> rounds_to 1000000000000000000000 (2, 21)"
    using to_double_sextillion to_double_two_sextillion
    by (simp_all add: rounds_to_def decimal_value_def)
  then show "filter (rounds_to 1000000000000000000000) (digit_candidates 1000000000000000000000 1)
      = [(1, 21)]"
    unfolding candidates_sextillion by simp
  show "1 \<le> digits_bound 1000000000000000000000"
    by (simp add: digits_bound_def)
qed simp_all

lemma positive_toString_sextillion: "positive_toString 1000000000000000000000 = ''1e+21''"
proof -
  have "strip_zeros (1, 21) = (1, 21)"
    by (simp add: strip_zeros.simps)
  moreover have "decimal 1 = ''1''" and "decimal 21 = ''21''"
    by (simp_all add: decimal.simps digit_char_simps)
  ultimately have "format_digits (1, 21) = ''1e+21''"
    by (simp add: format_digits_def)
  then show ?thesis
    by (simp add: positive_toString_def shortest_digits_sextillion)
qed

lemma to_double_three_halves: "to_double (3 / 2) = Some (3 / 2)"
  using to_double_nearest [of 0 "3 / 2" 6755399441055744] by simp

lemma to_double_one: "to_double 1 = Some 1"
  using to_double_nearest [of 0 1 4503599627370496] by simp

lemma to_double_two: "to_double 2 = Some 2"
  using to_double_nearest [of 1 2 4503599627370496] by simp

lemma to_double_sixteen_tenths: "to_double (16 / 10) = Some (7205759403792794 / 2 ^ 52)"
  using to_double_nearest [of 0 "16 / 10" 7205759403792794] by simp

lemma candidates_three_halves:
  "digit_candidates (3 / 2) 1 = [(1, 0), (2, 0)]"
  "digit_candidates (3 / 2) 2 = [(15, - 1), (16, - 1)]"
  using digit_candidates_unique [of 1 "3 / 2" 1 1] digit_candidates_unique [of 1 "3 / 2" 15 2]
  by simp_all

lemma shortest_digits_three_halves: "shortest_digits (3 / 2) = (15, - 1)"
proof (rule shortest_digits_unique [where k = 2])
  have "rounds_to (3 / 2) (15, - 1)" and "\<not> rounds_to (3 / 2) (16, - 1)"
    using to_double_three_halves to_double_sixteen_tenths
    by (simp_all add: rounds_to_def decimal_value_def)
  then show "filter (rounds_to (3 / 2)) (digit_candidates (3 / 2) 2) = [(15, - 1)]"
    unfolding candidates_three_halves by simp
  show "2 \<le> digits_bound (3 / 2)"
    using binary_exponent_unique [of 0 "3 / 2"] decimal_exponent_unique [of 1 "3 / 2"]
    by (simp add: digits_bound_def)
  show "\<not> list_ex (rounds_to (3 / 2)) (digit_candidates (3 / 2) j)" if "1 \<le> j" and "j < 2" for j
  proof -
    from that have "j = 1"
      by simp
    moreover have "\<not> rounds_to (3 / 2) (1, 0)" and "\<not> rounds_to (3 / 2) (2, 0)"
      using to_double_one to_double_two by (simp_all add: rounds_to_def decimal_value_def)
    ultimately show ?thesis
      unfolding \<open>j = 1\<close> candidates_three_halves by simp
  qed
qed simp

lemma positive_toString_three_halves: "positive_toString (3 / 2) = ''1.5''"
proof -
  have "strip_zeros (15, - 1) = (15, - 1)"
    by (simp add: strip_zeros.simps)
  moreover have "decimal 15 = ''15''"
    by (simp add: decimal.simps digit_char_simps)
  ultimately have "format_digits (15, - 1) = ''1.5''"
    by (simp add: format_digits_def)
  then show ?thesis
    by (simp add: positive_toString_def shortest_digits_three_halves floor_rat_numeral)
qed

subsection \<open>Where the string of a Number is a plain decimal\<close>

lemma below_millionth:
  assumes "to_double x = Some x" and "one_millionth \<le> x" and "x < 1 / 1000000"
  shows "x = one_millionth"
proof -
  have "2 powi (- 20) \<le> one_millionth" and "1 / 1000000 < (2 :: rat) powi (- 20 + 1)"
    by (simp_all add: one_millionth_def)
  with assms(2,3) have "2 powi (- 20) \<le> x" and "x < 2 powi (- 20 + 1)"
    by linarith+
  then have "binary_exponent x = - 20"
    by (rule binary_exponent_unique)
  with Number_grid [OF assms(1)] obtain m :: int where x: "x = of_int m * 2 powi (- 72)"
    by auto
  from assms(2) have "4722366482869645 \<le> m"
    by (simp add: x one_millionth_def)
  moreover from assms(3) have "m * 1000000 < 4722366482869645213696"
  proof -
    from assms(3) have "rat_of_int m * 1000000 < 4722366482869645213696"
      by (simp add: x field_simps)
    then have "rat_of_int (m * 1000000) < rat_of_int 4722366482869645213696"
      by simp
    then show ?thesis
      by (simp only: of_int_less_iff)
  qed
  ultimately have "m = 4722366482869645"
    by linarith
  then show ?thesis
    by (simp add: x one_millionth_def)
qed

lemma positive_toString_plain:
  assumes "0 < x" and "to_double x = Some x"
  shows "plain_decimal (positive_toString x) \<longleftrightarrow> one_millionth \<le> x \<and> x < 10 ^ 21"
proof (cases "of_int \<lfloor>x\<rfloor> = x \<and> x < 2 ^ 53")
  case True
  have "positive_toString x = decimal (nat \<lfloor>x\<rfloor>)"
    unfolding positive_toString_def using True by (rule if_P)
  then have "plain_decimal (positive_toString x)"
    by (simp add: plain_decimal_digits decimal_nonempty list_all_iff decimal_all_digits)
  moreover have "1 \<le> x"
  proof -
    from True obtain i :: int where i: "x = of_int i"
      by metis
    with assms(1) have "0 < i"
      by simp
    then have "1 \<le> i"
      by simp
    then show ?thesis
      by (simp add: i)
  qed
  then have "one_millionth \<le> x"
    by (simp add: one_millionth_def)
  moreover from True have "x < 10 ^ 21"
    by simp
  ultimately show ?thesis
    by simp
next
  case False
  define c where "c = shortest_digits x"
  define n0 where "n0 = decimal_exponent x"
  define n where "n = point_position c"
  obtain k where k: "1 \<le> k" "c \<in> set (digit_candidates x k)" "rounds_to x c"
    using shortest_digits_found [OF assms] unfolding c_def by blast
  have pos: "0 < fst c" and lo: "10 powi (n0 - 1) \<le> decimal_value c"
    and hi: "decimal_value c \<le> 10 powi n0"
    using digit_candidates_bounds [OF assms(1) k(1,2)] by (simp_all add: n0_def)
  have x: "10 powi (n0 - 1) \<le> x" "x < 10 powi n0"
    using decimal_exponent_bounds [OF assms(1)] by (simp_all add: n0_def)
  have nb: "10 powi (n - 1) \<le> decimal_value c" "decimal_value c < 10 powi n"
    using point_position_bounds [OF pos] by (simp_all add: n_def)
  have round: "to_double (decimal_value c) = Some x"
    using k(3) by (simp add: rounds_to_def)
  have n_cases: "n = n0 \<or> (n = n0 + 1 \<and> decimal_value c = 10 powi n0)"
  proof (cases "decimal_value c = 10 powi n0")
    case True
    have "(10 :: rat) powi n0 < 10 powi (n0 + 1)"
      by (intro power_int_strict_increasing) simp_all
    with True have "10 powi (n0 + 1 - 1) \<le> decimal_value c" and "decimal_value c < 10 powi (n0 + 1)"
      by simp_all
    with nb have "n = n0 + 1"
      by (intro powi_interval_unique [of 10 n "decimal_value c"]) simp_all
    with True show ?thesis
      by simp
  next
    case False
    with hi have "decimal_value c < 10 powi n0"
      by simp
    with nb lo have "n = n0"
      by (intro powi_interval_unique [of 10 n "decimal_value c"]) simp_all
    then show ?thesis
      by simp
  qed
  have "positive_toString x = format_digits c"
    unfolding positive_toString_def c_def using False by (rule if_not_P)
  then have plain: "plain_decimal (positive_toString x) \<longleftrightarrow> - 6 < n \<and> n \<le> 21"
    by (simp add: format_digits_plain n_def point_position_def)
  show ?thesis
  proof
    assume "plain_decimal (positive_toString x)"
    then have n: "- 6 < n" "n \<le> 21"
      by (simp_all add: plain)
    have "x < 10 ^ 21"
    proof (rule ccontr)
      assume "\<not> x < 10 ^ 21"
      then have "10 powi 21 \<le> x"
        by simp
      from this x(2) have "21 < n0"
        by (intro powi_exponent_less [of 10 _ x]) simp_all
      with n_cases n(2) show False
        by auto
    qed
    moreover have "one_millionth \<le> x"
    proof (rule ccontr)
      assume "\<not> one_millionth \<le> x"
      then have less: "x < one_millionth"
        by simp
      moreover have "one_millionth < 10 powi (- 6)"
        by (simp add: one_millionth_def)
      ultimately have "x < 10 powi (- 6)"
        by simp
      with x(1) have "n0 - 1 < - 6"
        by (intro powi_exponent_less [of 10 _ x]) simp_all
      with n(1) n_cases have "n0 = - 6" and "decimal_value c = 10 powi n0"
        by auto
      then have "decimal_value c = 1 / 1000000"
        by simp
      with round to_double_millionth have "x = one_millionth"
        by simp
      with less show False
        by simp
    qed
    ultimately show "one_millionth \<le> x \<and> x < 10 ^ 21"
      by simp
  next
    assume range: "one_millionth \<le> x \<and> x < 10 ^ 21"
    have "n \<le> 21"
    proof -
      from range have "x < 10 powi 21"
        by simp
      with x(1) have "n0 - 1 < 21"
        by (intro powi_exponent_less [of 10 _ x]) simp_all
      moreover have "n \<noteq> 22"
      proof
        assume "n = 22"
        with n_cases \<open>n0 - 1 < 21\<close> have "n0 = 21" and "decimal_value c = 10 powi n0"
          by auto
        then have "decimal_value c = 1000000000000000000000"
          by simp
        with round to_double_sextillion have "x = 1000000000000000000000"
          by simp
        with range show False
          by simp
      qed
      ultimately show ?thesis
        using n_cases by auto
    qed
    moreover have "- 6 < n"
    proof (cases "1 / 1000000 \<le> x")
      case True
      then have "10 powi (- 6) \<le> x"
        by simp
      from this x(2) have "- 6 < n0"
        by (intro powi_exponent_less [of 10 _ x]) simp_all
      with n_cases show ?thesis
        by auto
    next
      case False
      with range assms(2) have "x = one_millionth"
        by (intro below_millionth) simp_all
      then show ?thesis
        by (simp add: n_def c_def shortest_digits_millionth point_position_millionth)
    qed
    ultimately show "plain_decimal (positive_toString x)"
      by (simp add: plain)
  qed
qed

subsection \<open>Reading the string of a Number back\<close>

lemma positive_toString_value:
  assumes "0 \<le> x" and "to_double x = Some x"
  shows "to_double (literal_value (positive_toString x)) = Some x"
proof (cases "of_int \<lfloor>x\<rfloor> = x \<and> x < 2 ^ 53")
  case True
  then obtain i :: int where i: "x = of_int i"
    by metis
  with assms(1) have "rat_of_nat (nat \<lfloor>x\<rfloor>) = x"
    by simp
  moreover have "positive_toString x = decimal (nat \<lfloor>x\<rfloor>)"
    unfolding positive_toString_def using True by (rule if_P)
  ultimately have "literal_value (positive_toString x) = x"
    by (simp add: literal_value_digits list_all_iff decimal_all_digits digits_value_decimal)
  with assms(2) show ?thesis
    by simp
next
  case False
  have "x \<noteq> 0"
  proof
    assume "x = 0"
    then have "of_int \<lfloor>x\<rfloor> = x \<and> x < 2 ^ 53"
      by simp
    with False show False ..
  qed
  with assms(1) have pos: "0 < x"
    by simp
  obtain k where k: "1 \<le> k" "shortest_digits x \<in> set (digit_candidates x k)"
    "rounds_to x (shortest_digits x)"
    using shortest_digits_found [OF pos assms(2)] by blast
  have "0 < fst (shortest_digits x)"
    using digit_candidates_bounds(1) [OF pos k(1,2)] .
  then have "literal_value (format_digits (shortest_digits x)) = decimal_value (shortest_digits x)"
    by (rule format_digits_value)
  moreover have "positive_toString x = format_digits (shortest_digits x)"
    unfolding positive_toString_def using False by (rule if_not_P)
  ultimately show ?thesis
    using k(3) by (simp add: rounds_to_def)
qed

lemma positive_toString_digit: "is_digit (hd (positive_toString x))"
  by (simp add: positive_toString_def hd_decimal_digit format_digits_digit)

lemma positive_toString_nonempty: "positive_toString x \<noteq> []"
proof -
  have "format_digits c \<noteq> []" for c
    by (simp add: format_digits_def Let_def decimal_nonempty)
  then show ?thesis
    by (simp add: positive_toString_def decimal_nonempty)
qed

lemma positive_toString_other:
  "positive_toString x \<noteq> ''NaN''" "positive_toString x \<noteq> ''Infinity''"
  "positive_toString x \<noteq> ''-Infinity''" "hd (positive_toString x) \<noteq> CHR ''-''"
  using positive_toString_digit [of x] by (auto simp: is_digit_def)

lemma is_Number_to_double: "is_Number (Finite q) \<Longrightarrow> to_double \<bar>q\<bar> = Some \<bar>q\<bar>"
  by (auto simp: to_double_zero)

lemma read_back_String:
  assumes "is_Number v"
  shows "read_back (String_of_Number v) = v"
proof (cases v)
  case (Finite q)
  with assms have double: "to_double \<bar>q\<bar> = Some \<bar>q\<bar>"
    by (simp only: is_Number_to_double)
  show ?thesis
  proof (cases "q < 0")
    case True
    with double have "to_double (literal_value (positive_toString (- q))) = Some (- q)"
      using positive_toString_value [of "- q"] by simp
    moreover have "''-'' @ positive_toString (- q) \<noteq> ''-Infinity''"
      using positive_toString_other(2) [of "- q"] by simp
    ultimately show ?thesis
      using True Finite by (simp add: read_back_def to_Number_def)
  next
    case False
    with double have "to_double (literal_value (positive_toString q)) = Some q"
      using positive_toString_value [of q] by simp
    then show ?thesis
      using False Finite positive_toString_other [of q] positive_toString_nonempty [of q]
      by (simp add: read_back_def to_Number_def)
  qed
qed (simp_all add: read_back_def)


lemma String_of_Number_plain:
  assumes "is_Number (Finite q)"
  shows "plain_decimal (String_of_Number (Finite q)) \<longleftrightarrow>
    q = 0 \<or> (one_millionth \<le> \<bar>q\<bar> \<and> \<bar>q\<bar> < 10 ^ 21)"
proof (cases "q = 0")
  case True
  have "decimal 0 = ''0''"
    by (simp add: decimal.simps digit_char_simps)
  with True show ?thesis
    by (simp add: positive_toString_def plain_decimal_def is_digit_def)
next
  case False
  with assms have double: "to_double \<bar>q\<bar> = Some \<bar>q\<bar>"
    by simp
  show ?thesis
  proof (cases "q < 0")
    case True
    have "plain_decimal (''-'' @ s) = plain_decimal s" if "hd s \<noteq> CHR ''-''" for s
      using that by (simp add: plain_decimal_def)
    then have "plain_decimal (''-'' @ positive_toString (- q)) = plain_decimal (positive_toString (- q))"
      using positive_toString_other(4) [of "- q"] by blast
    with True double show ?thesis
      using positive_toString_plain [of "- q"] by simp
  next
    case nonneg: False
    with False double show ?thesis
      using positive_toString_plain [of q] by simp
  qed
qed

section \<open>Properties of the URL signer\<close>

subsection \<open>Lists of properties\<close>

lemma update_fresh: "k \<notin> fst ` set ps \<Longrightarrow> AList.update k v ps = ps @ [(k, v)]"
  by (induction ps) auto

lemma present_simps:
  "present [] = []"
  "present ((k, None) # kvs) = present kvs"
  "present ((k, Some v) # kvs) = (k, v) # present kvs"
  by (simp_all add: present_def map_filter_simps)

lemma keys_present: "fst ` set (present kvs) \<subseteq> fst ` set kvs"
proof (induction kvs)
  case Nil
  show ?case by (simp add: present_simps)
next
  case (Cons kv kvs)
  then show ?case
    by (cases kv; cases "snd kv") (auto simp: present_simps)
qed

lemma distinct_present: "distinct (map fst kvs) \<Longrightarrow> distinct (map fst (present kvs))"
proof (induction kvs)
  case Nil
  show ?case by (simp add: present_simps)
next
  case (Cons kv kvs)
  then show ?case
    using keys_present [of kvs]
    by (cases kv; cases "snd kv") (auto simp: present_simps)
qed

lemma fold_assign:
  assumes "distinct (map fst kvs)" and "fst ` set kvs \<inter> fst ` set acc = {}"
  shows "fold assign kvs acc = acc @ present kvs"
  using assms
proof (induction kvs arbitrary: acc)
  case Nil
  show ?case by (simp add: present_simps)
next
  case (Cons kv kvs)
  obtain k v where kv: "kv = (k, v)" by (cases kv)
  show ?case
  proof (cases v)
    case None
    with Cons kv show ?thesis
      by (simp add: assign_def present_simps)
  next
    case (Some x)
    from Cons.prems kv have fresh: "k \<notin> fst ` set acc"
      by auto
    from Cons.prems kv have "fst ` set kvs \<inter> fst ` set (acc @ [(k, x)]) = {}"
      by auto
    with Cons.IH [of "acc @ [(k, x)]"] Cons.prems have
      "fold assign kvs (acc @ [(k, x)]) = (acc @ [(k, x)]) @ present kvs"
      by simp
    moreover from kv Some fresh have "assign kv acc = acc @ [(k, x)]"
      by (simp add: assign_def update_fresh)
    ultimately show ?thesis
      using kv Some by (simp add: present_simps)
  qed
qed

lemma param_keys: "map fst (param_assignments config) =
    [''url'', ''width'', ''height'', ''scale'', ''mobile'', ''full_page'', ''element'',
     ''format'', ''quality'', ''preset'', ''device'', ''wait_for'', ''delay'', ''block_ads'',
     ''block_trackers'', ''block_cookie_banners'', ''block_chat_widgets'', ''dark_mode'',
     ''cache_ttl'']"
  by (simp add: param_assignments_def)

lemma distinct_param_keys: "distinct (map fst (param_assignments config))"
  by (simp add: param_keys)

lemma build_params_present: "build_params config = present (param_assignments config)"
  using fold_assign [where kvs = "param_assignments config" and acc = "[]"]
  by (simp add: build_params_def distinct_param_keys)

lemma distinct_build_params: "distinct (map fst (build_params config))"
  by (simp add: build_params_present distinct_present distinct_param_keys)

subsection \<open>Sorting by key\<close>

lemma map_insort_key: "map f (insort_key f x xs) = insort (f x) (map f xs)"
  by (induction xs) simp_all

lemma map_sort_key: "map f (sort_key f xs) = sort (map f xs)"
  by (induction xs) (simp_all add: map_insort_key)

lemma insort_key_map:
  "insort_key f (h x) (map h xs) = map h (insort_key (\<lambda>y. f (h y)) x xs)"
  by (induction xs) simp_all

lemma sort_key_map: "sort_key f (map h xs) = map h (sort_key (\<lambda>y. f (h y)) xs)"
  by (induction xs) (simp_all add: insort_key_map)

lemma canonical_sorted_pairs:
  assumes "distinct (map fst ps)"
  shows "canonical ps = join ''&'' (map (\<lambda>p. fst p @ ''='' @ snd p) (sort_key fst ps))"
proof -
  have "param_text ps (fst p) = snd p" if "p \<in> set ps" for p
  proof -
    from that have "(fst p, snd p) \<in> set ps" by simp
    with assms have "map_of ps (fst p) = Some (snd p)"
      by (rule map_of_is_SomeI)
    then show ?thesis
      by (simp add: param_text_def)
  qed
  then have "map (\<lambda>k. k @ ''='' @ param_text ps k) (map fst (sort_key fst ps))
      = map (\<lambda>p. fst p @ ''='' @ snd p) (sort_key fst ps)"
    by simp
  then show ?thesis
    by (simp add: canonical_def map_sort_key)
qed

subsection \<open>The message of the source and the message of the specification\<close>

lemma map_option_forms:
  "map_option canonical_form (map_option Num v) = map_option String_of_Number v"
  "map_option canonical_form (map_option Boolean b) = map_option Boolean_toString b"
  "map_option canonical_form (map_option Str s) = s"
  by (cases v; cases b; cases s; simp add: Boolean_toString_def)+

lemma param_assignments_scalar:
  "param_assignments config =
    map (\<lambda>kv. (fst kv, map_option canonical_form (snd kv))) (scalar_parameters config)"
  unfolding param_assignments_def scalar_parameters_def list.map fst_conv snd_conv
  by (simp only: map_option_forms)

lemma present_map:
  "present (map (\<lambda>kv. (fst kv, map_option g (snd kv))) kvs)
     = map (\<lambda>p. (fst p, g (snd p))) (present kvs)"
proof (induction kvs)
  case Nil
  show ?case by (simp add: present_simps)
next
  case (Cons kv kvs)
  then show ?case
    by (cases kv; cases "snd kv") (auto simp: present_simps)
qed

lemma seconds_safe: "time_value ms \<Longrightarrow> safe_integer (ms div 1000)"
  using time_value_seconds [of ms "ms div 1000"] by (simp add: safe_integer_def)

lemma signing_message_refines:
  "signing_message config expiresAt = canonical_message config expiresAt"
proof -
  let ?h = "\<lambda>p :: string \<times> scalar. (fst p, canonical_form (snd p))"
  have "build_params config = map ?h (present_parameters config)"
    by (simp add: build_params_present param_assignments_scalar present_map
        present_parameters_def)
  moreover have "sort_key fst (map ?h (present_parameters config))
      = map ?h (sort_key fst (present_parameters config))"
    by (simp add: sort_key_map)
  ultimately have "canonical (build_params config)
      = join ''&'' (map key_value (sort_key fst (present_parameters config)))"
    using canonical_sorted_pairs [OF distinct_build_params, of config]
    by (simp add: key_value_def [abs_def] comp_def)
  then show ?thesis
    by (simp add: signing_message_def canonical_message_def Number_toString_def)
qed

lemma strict_sorted_keys:
  "sorted_wrt (<) (map fst (sort_key fst (present_parameters config)))"
proof -
  have "map fst (scalar_parameters config) = map fst (param_assignments config)"
    by (simp add: scalar_parameters_def param_assignments_def)
  then have "distinct (map fst (present_parameters config))"
    unfolding present_parameters_def
    by (intro distinct_present) (simp only: distinct_param_keys)
  then have "distinct (map fst (sort_key fst (present_parameters config)))"
    by (simp add: map_sort_key)
  then show ?thesis
    by (simp add: strict_sorted_iff)
qed

subsection \<open>Joining\<close>






subsection \<open>The sorted properties as a function of the property map\<close>










subsection \<open>From a changed option to a changed property\<close>













subsection \<open>The options as fields of the configuration\<close>

text \<open>
  Giving one of the nineteen fields that \<^verbatim>\<open>generateUrl\<close> reads another value changes the
  parameter under its key and no other; giving any other field another value changes
  no parameter.
\<close>

lemma map_option_Str_eq: "map_option Str a = map_option Str b \<longleftrightarrow> a = b"
  by (cases a; cases b) simp_all

lemma map_option_Num_eq: "map_option Num a = map_option Num b \<longleftrightarrow> a = b"
  by (cases a; cases b) simp_all

lemma map_option_Boolean_eq: "map_option Boolean a = map_option Boolean b \<longleftrightarrow> a = b"
  by (cases a; cases b) simp_all

lemma serialized_fields:
  "changed_parameters c (c\<lparr>url := s\<rparr>) = (if url c = s then [] else [''url''])"
  "changed_parameters c (c\<lparr>width := x\<rparr>) = (if width c = x then [] else [''width''])"
  "changed_parameters c (c\<lparr>height := x\<rparr>) = (if height c = x then [] else [''height''])"
  "changed_parameters c (c\<lparr>scale := x\<rparr>) = (if scale c = x then [] else [''scale''])"
  "changed_parameters c (c\<lparr>mobile := b\<rparr>) = (if mobile c = b then [] else [''mobile''])"
  "changed_parameters c (c\<lparr>fullPage := b\<rparr>) = (if fullPage c = b then [] else [''full_page''])"
  "changed_parameters c (c\<lparr>element := s\<rparr>) = (if element c = s then [] else [''element''])"
  "changed_parameters c (c\<lparr>format := s\<rparr>) = (if format c = s then [] else [''format''])"
  "changed_parameters c (c\<lparr>quality := x\<rparr>) = (if quality c = x then [] else [''quality''])"
  "changed_parameters c (c\<lparr>preset := s\<rparr>) = (if preset c = s then [] else [''preset''])"
  "changed_parameters c (c\<lparr>device := s\<rparr>) = (if device c = s then [] else [''device''])"
  "changed_parameters c (c\<lparr>waitFor := s\<rparr>) = (if waitFor c = s then [] else [''wait_for''])"
  "changed_parameters c (c\<lparr>delay := x\<rparr>) = (if delay c = x then [] else [''delay''])"
  "changed_parameters c (c\<lparr>blockAds := b\<rparr>) = (if blockAds c = b then [] else [''block_ads''])"
  "changed_parameters c (c\<lparr>blockTrackers := b\<rparr>)
     = (if blockTrackers c = b then [] else [''block_trackers''])"
  "changed_parameters c (c\<lparr>blockCookieBanners := b\<rparr>)
     = (if blockCookieBanners c = b then [] else [''block_cookie_banners''])"
  "changed_parameters c (c\<lparr>blockChatWidgets := b\<rparr>)
     = (if blockChatWidgets c = b then [] else [''block_chat_widgets''])"
  "changed_parameters c (c\<lparr>darkMode := b\<rparr>) = (if darkMode c = b then [] else [''dark_mode''])"
  "changed_parameters c (c\<lparr>cacheTtl := x\<rparr>) = (if cacheTtl c = x then [] else [''cache_ttl''])"
  by (simp_all add: changed_parameters_def scalar_parameters_def map_option_Str_eq
      map_option_Num_eq map_option_Boolean_eq)

lemma unserialized_fields:
  "changed_parameters c (c\<lparr>html := s\<rparr>) = []"
  "changed_parameters c (c\<lparr>waitForSelector := s\<rparr>) = []"
  "changed_parameters c (c\<lparr>waitForTimeout := x\<rparr>) = []"
  "changed_parameters c (c\<lparr>blockUrls := l\<rparr>) = []"
  "changed_parameters c (c\<lparr>blockResources := l\<rparr>) = []"
  "changed_parameters c (c\<lparr>injectScript := s\<rparr>) = []"
  "changed_parameters c (c\<lparr>injectStyle := s\<rparr>) = []"
  "changed_parameters c (c\<lparr>click := s\<rparr>) = []"
  "changed_parameters c (c\<lparr>hide := l\<rparr>) = []"
  "changed_parameters c (c\<lparr>remove := l\<rparr>) = []"
  "changed_parameters c (c\<lparr>reducedMotion := b\<rparr>) = []"
  "changed_parameters c (c\<lparr>mediaType := s\<rparr>) = []"
  "changed_parameters c (c\<lparr>userAgent := s\<rparr>) = []"
  "changed_parameters c (c\<lparr>timezone := s\<rparr>) = []"
  "changed_parameters c (c\<lparr>locale' := s\<rparr>) = []"
  "changed_parameters c (c\<lparr>geolocation := g\<rparr>) = []"
  "changed_parameters c (c\<lparr>headers := h\<rparr>) = []"
  "changed_parameters c (c\<lparr>cookies := k\<rparr>) = []"
  "changed_parameters c (c\<lparr>authBasic := a\<rparr>) = []"
  "changed_parameters c (c\<lparr>authBearer := s\<rparr>) = []"
  "changed_parameters c (c\<lparr>bypassCsp := b\<rparr>) = []"
  "changed_parameters c (c\<lparr>cacheRefresh := b\<rparr>) = []"
  "changed_parameters c (c\<lparr>pdfPaperSize := s\<rparr>) = []"
  "changed_parameters c (c\<lparr>pdfWidth := s\<rparr>) = []"
  "changed_parameters c (c\<lparr>pdfHeight := s\<rparr>) = []"
  "changed_parameters c (c\<lparr>pdfLandscape := b\<rparr>) = []"
  "changed_parameters c (c\<lparr>pdfMargin := s\<rparr>) = []"
  "changed_parameters c (c\<lparr>pdfMarginTop := s\<rparr>) = []"
  "changed_parameters c (c\<lparr>pdfMarginRight := s\<rparr>) = []"
  "changed_parameters c (c\<lparr>pdfMarginBottom := s\<rparr>) = []"
  "changed_parameters c (c\<lparr>pdfMarginLeft := s\<rparr>) = []"
  "changed_parameters c (c\<lparr>pdfScale := x\<rparr>) = []"
  "changed_parameters c (c\<lparr>pdfPrintBackground := b\<rparr>) = []"
  "changed_parameters c (c\<lparr>pdfPageRanges := s\<rparr>) = []"
  "changed_parameters c (c\<lparr>pdfHeader := s\<rparr>) = []"
  "changed_parameters c (c\<lparr>pdfFooter := s\<rparr>) = []"
  "changed_parameters c (c\<lparr>pdfFitOnePage := b\<rparr>) = []"
  "changed_parameters c (c\<lparr>pdfPreferCssPageSize := b\<rparr>) = []"
  "changed_parameters c (c\<lparr>storageEnabled := b\<rparr>) = []"
  "changed_parameters c (c\<lparr>storagePath := s\<rparr>) = []"
  "changed_parameters c (c\<lparr>storageAcl := s\<rparr>) = []"
  by (simp_all add: changed_parameters_def scalar_parameters_def)

subsection \<open>Particular messages\<close>

lemma positive_toString_examples:
  "positive_toString 1200 = ''1200''" "positive_toString 1201 = ''1201''"
  "positive_toString 1705708800 = ''1705708800''"
  using positive_toString_int [of 1200] positive_toString_int [of 1201]
    positive_toString_int [of 1705708800]
  by (simp_all add: decimal.simps digit_char_simps)

lemma is_Number_examples:
  "is_Number (Finite 1200)" "is_Number (Finite 1201)" "is_Number (Finite (3 / 2))"
  "is_Number (Finite 1000000000000000000000)"
  using safe_integer_Number [of 1200] safe_integer_Number [of 1201]
    to_double_three_halves to_double_sextillion
  by simp_all

lemma canonical_message_example:
  "canonical_message
     (no_options\<lparr>url := Some ''https://example.com'', width := Some (Finite 1200),
        scale := Some (Finite (3 / 2))\<rparr>)
     1705708800000
   = ''scale=1.5&url=https://example.com&width=1200&expires=1705708800''"
  by (simp add: canonical_message_def present_parameters_def scalar_parameters_def no_options_def
      present_simps key_value_def positive_toString_examples positive_toString_three_halves)

lemma signing_message_sextillion:
  "signing_message
     (no_options\<lparr>url := Some ''https://example.com'',
        width := Some (Finite 1000000000000000000000)\<rparr>)
     1705708800000
   = ''url=https://example.com&width=1e+21&expires=1705708800''"
  by (simp add: signing_message_def build_params_present param_assignments_def no_options_def
      present_simps canonical_def param_text_def positive_toString_sextillion
      Number_toString_def positive_toString_examples)

lemma signing_message_NaN:
  "signing_message (no_options\<lparr>url := Some ''https://example.com'', width := Some NaN\<rparr>)
     1705708800000
   = ''url=https://example.com&width=NaN&expires=1705708800''"
  by (simp add: signing_message_def build_params_present param_assignments_def no_options_def
      present_simps canonical_def param_text_def Number_toString_def
      positive_toString_examples)

section \<open>Claims about the URL signer\<close>




text \<open>
  C8 (canonical serialization), as amended. For every configuration and every expiry
  the message that \<^verbatim>\<open>generateUrl\<close> signs is the message of the specification: each present
  parameter in its one string form (a string as it is, a boolean as \<^verbatim>\<open>true\<close> or \<^verbatim>\<open>false\<close>, a
  number as \<^verbatim>\<open>String\<close> writes it), the keys in strictly ascending byte-wise order,
  \<open>key=value\<close> joined by \<open>&\<close>, followed by \<open>&expires=\<close> and the whole seconds of the expiry,
  which for an expiry that is a time value are written as an integer numeral. The
  string of a Number reads back as that Number, and it is a decimal string with no
  scientific notation exactly for zero and for the finite Numbers of magnitude from
  \<^verbatim>\<open>0.000001\<close> up to, and not including, \<^verbatim>\<open>1e21\<close>. As stated, for every number, the claim fails:
  \<^verbatim>\<open>String\<close> writes a number from \<^verbatim>\<open>1e21\<close> on (and one below \<^verbatim>\<open>0.000001\<close>) with an exponent, and
  \<^verbatim>\<open>NaN\<close> and the infinities by their names, so a width of \<^verbatim>\<open>1e21\<close> is signed as
  \<^verbatim>\<open>width=1e+21\<close>.
\<close>

theorem signing_message_canonical:
  "signing_message config expiresAt = canonical_message config expiresAt
   \<and> sorted_wrt (<) (map fst (sort_key fst (present_parameters config)))
   \<and> (is_Number x \<longrightarrow>
        read_back (canonical_form (Num x)) = x
        \<and> (plain_decimal (canonical_form (Num x)) \<longleftrightarrow> plain_range x))
   \<and> (time_value expiresAt \<longrightarrow>
        canonical_form (Num (Finite (of_int (expiresAt div 1000))))
        = (if expiresAt div 1000 < 0 then ''-'' @ decimal (nat (- (expiresAt div 1000)))
           else decimal (nat (expiresAt div 1000))))"
proof (intro conjI impI)
  show "signing_message config expiresAt = canonical_message config expiresAt"
    by (rule signing_message_refines)
  show "sorted_wrt (<) (map fst (sort_key fst (present_parameters config)))"
    by (rule strict_sorted_keys)
next
  assume "is_Number x"
  then show "read_back (canonical_form (Num x)) = x"
    by (simp add: read_back_String)
  show "plain_decimal (canonical_form (Num x)) \<longleftrightarrow> plain_range x"
  proof (cases x)
    case (Finite q)
    with \<open>is_Number x\<close> show ?thesis
      using String_of_Number_plain [of q] by (simp del: String_of_Number.simps(4))
  qed (simp_all add: plain_decimal_def is_digit_def)
next
  assume "time_value expiresAt"
  then have "\<bar>expiresAt div 1000\<bar> < 2 ^ 53"
    using seconds_safe [of expiresAt] by (simp add: safe_integer_def)
  then show "canonical_form (Num (Finite (of_int (expiresAt div 1000))))
        = (if expiresAt div 1000 < 0 then ''-'' @ decimal (nat (- (expiresAt div 1000)))
           else decimal (nat (expiresAt div 1000)))"
    using Number_toString_safe [of "expiresAt div 1000"] by (simp add: Number_toString_def)
qed

theorem signing_message_canonical_witness:
  "is_Number (Finite (3 / 2)) \<and> time_value 1705708800000 \<and>
   signing_message
     (no_options\<lparr>url := Some ''https://example.com'', width := Some (Finite 1200),
        scale := Some (Finite (3 / 2))\<rparr>)
     1705708800000
   = ''scale=1.5&url=https://example.com&width=1200&expires=1705708800'' \<and>
   read_back ''1.5'' = Finite (3 / 2) \<and> plain_decimal ''1.5'' \<and> plain_range (Finite (3 / 2))"
proof -
  have number: "is_Number (Finite (3 / 2))"
    by (rule is_Number_examples)
  have time: "time_value 1705708800000"
    by (simp add: time_value_def)
  have range: "plain_range (Finite (3 / 2))"
    by (simp add: one_millionth_def)
  from
    signing_message_canonical [where x = "Finite (3 / 2)" and expiresAt = 1705708800000
      and config = "no_options\<lparr>url := Some ''https://example.com'', width := Some (Finite 1200),
        scale := Some (Finite (3 / 2))\<rparr>"]
    number time range canonical_message_example
  show ?thesis
    by (simp add: positive_toString_three_halves del: plain_range.simps)
qed

theorem signing_message_canonical_counterexample:
  "is_Number (Finite 1000000000000000000000) \<and>
   signing_message
     (no_options\<lparr>url := Some ''https://example.com'',
        width := Some (Finite 1000000000000000000000)\<rparr>)
     1705708800000
   = ''url=https://example.com&width=1e+21&expires=1705708800'' \<and>
   \<not> plain_decimal ''1e+21'' \<and>
   signing_message (no_options\<lparr>url := Some ''https://example.com'', width := Some NaN\<rparr>)
     1705708800000
   = ''url=https://example.com&width=NaN&expires=1705708800'' \<and>
   \<not> plain_decimal ''NaN''"
  using is_Number_examples(4) signing_message_sextillion signing_message_NaN
  by (simp add: plain_decimal_def is_digit_def)

end
